theory Spec2Isabelle
  imports Complex_Main
begin

section \<open>Numbers\<close>

text \<open>
  A JavaScript number is a finite value, \<open>NaN\<close>, or one of the two infinities. Finite
  arithmetic is taken exact (over \<^typ>\<open>real\<close>): rounding to binary64 and overflow to
  infinity are outside the model, and so is the sign of zero (\<open>-0 === 0\<close> in the
  source's only test on zero). The non-finite values are kept because the source
  tests for them (\<open>Number.isFinite\<close>).
\<close>

datatype number = Finite real | NaN | PosInf | NegInf

fun isFinite :: "number \<Rightarrow> bool" where
  "isFinite (Finite _) = True"
| "isFinite _ = False"

text \<open>The infinity with the sign of a finite value; \<open>NaN\<close> for zero.\<close>

definition inf_of_sign :: "real \<Rightarrow> number" where
  "inf_of_sign a = (if a = 0 then NaN else if 0 < a then PosInf else NegInf)"

fun jadd :: "number \<Rightarrow> number \<Rightarrow> number" where
  "jadd (Finite a) (Finite b) = Finite (a + b)"
| "jadd NaN _ = NaN"
| "jadd _ NaN = NaN"
| "jadd PosInf NegInf = NaN"
| "jadd NegInf PosInf = NaN"
| "jadd PosInf _ = PosInf"
| "jadd _ PosInf = PosInf"
| "jadd NegInf _ = NegInf"
| "jadd _ NegInf = NegInf"

fun jmul :: "number \<Rightarrow> number \<Rightarrow> number" where
  "jmul (Finite a) (Finite b) = Finite (a * b)"
| "jmul NaN _ = NaN"
| "jmul _ NaN = NaN"
| "jmul PosInf (Finite b) = inf_of_sign b"
| "jmul NegInf (Finite b) = inf_of_sign (- b)"
| "jmul (Finite a) PosInf = inf_of_sign a"
| "jmul (Finite a) NegInf = inf_of_sign (- a)"
| "jmul PosInf PosInf = PosInf"
| "jmul NegInf NegInf = PosInf"
| "jmul PosInf NegInf = NegInf"
| "jmul NegInf PosInf = NegInf"

text \<open>
  Division. A zero divisor is taken as \<open>+0\<close>; the source divides only by a sum it has
  tested to be non-zero and by an array length.
\<close>

fun jdiv :: "number \<Rightarrow> number \<Rightarrow> number" where
  "jdiv (Finite a) (Finite b) = (if b = 0 then inf_of_sign a else Finite (a / b))"
| "jdiv NaN _ = NaN"
| "jdiv _ NaN = NaN"
| "jdiv (Finite a) PosInf = Finite 0"
| "jdiv (Finite a) NegInf = Finite 0"
| "jdiv PosInf (Finite b) = (if 0 \<le> b then PosInf else NegInf)"
| "jdiv NegInf (Finite b) = (if 0 \<le> b then NegInf else PosInf)"
| "jdiv PosInf PosInf = NaN"
| "jdiv PosInf NegInf = NaN"
| "jdiv NegInf PosInf = NaN"
| "jdiv NegInf NegInf = NaN"

text \<open>The comparison \<open>a < b\<close>; every comparison with \<open>NaN\<close> is false.\<close>

fun jless :: "number \<Rightarrow> number \<Rightarrow> bool" where
  "jless (Finite a) (Finite b) = (a < b)"
| "jless NaN _ = False"
| "jless _ NaN = False"
| "jless _ NegInf = False"
| "jless NegInf _ = True"
| "jless PosInf _ = False"
| "jless _ PosInf = True"

definition jgreater :: "number \<Rightarrow> number \<Rightarrow> bool" where
  "jgreater a b = jless b a"

text \<open>The comparison \<open>a >= b\<close>.\<close>

definition jge :: "number \<Rightarrow> number \<Rightarrow> bool" where
  "jge a b = (a \<noteq> NaN \<and> b \<noteq> NaN \<and> \<not> jless a b)"

text \<open>\<open>Math.min\<close> of two arguments.\<close>

definition jmin :: "number \<Rightarrow> number \<Rightarrow> number" where
  "jmin a b = (if a = NaN \<or> b = NaN then NaN else if jless b a then b else a)"

text \<open>A number in the unit interval; a number that is not negative.\<close>

fun inUnit :: "number \<Rightarrow> bool" where
  "inUnit (Finite r) = (0 \<le> r \<and> r \<le> 1)"
| "inUnit _ = False"

fun nonNegative :: "number \<Rightarrow> bool" where
  "nonNegative (Finite r) = (0 \<le> r)"
| "nonNegative PosInf = True"
| "nonNegative _ = False"

section \<open>Scoring calculator\<close>

record VisibilityScoringBreakdown =
  mentionPresence :: number
  mentionCount :: number
  mentionContext :: number
  mentionPosition :: number
  descriptionDetail :: number
  answerRelevance :: number
  serviceMatch :: number
  rationale :: string

text \<open>
  The weights have the six factor names of the breakdown; the fields carry a \<open>w\<close> in
  front because two records of one theory cannot share a field name.
\<close>

record ScoringWeights =
  wMentionPresence :: number
  wMentionContext :: number
  wMentionPosition :: number
  wDescriptionDetail :: number
  wAnswerRelevance :: number
  wServiceMatch :: number

definition DEFAULT_SCORING_WEIGHTS :: ScoringWeights where
  "DEFAULT_SCORING_WEIGHTS =
     \<lparr> wMentionPresence = Finite (2 / 10),
       wMentionContext = Finite (25 / 100),
       wMentionPosition = Finite (15 / 100),
       wDescriptionDetail = Finite (2 / 10),
       wAnswerRelevance = Finite (1 / 10),
       wServiceMatch = Finite (1 / 10) \<rparr>"

text \<open>
  The sum of the six weights, left to right. It is exact here and rounded in the source;
  for weights that are not negative the two are 0 together, exactly when every weight
  is 0.
\<close>

definition weightSum :: "ScoringWeights \<Rightarrow> number" where
  "weightSum weights =
     jadd (jadd (jadd (jadd (jadd (wMentionPresence weights) (wMentionContext weights))
       (wMentionPosition weights)) (wDescriptionDetail weights))
       (wAnswerRelevance weights)) (wServiceMatch weights)"

definition normalizeWeights :: "ScoringWeights \<Rightarrow> ScoringWeights" where
  "normalizeWeights weights =
     (let sum = weightSum weights in
      if sum = Finite 0 then DEFAULT_SCORING_WEIGHTS
      else \<lparr> wMentionPresence = jdiv (wMentionPresence weights) sum,
             wMentionContext = jdiv (wMentionContext weights) sum,
             wMentionPosition = jdiv (wMentionPosition weights) sum,
             wDescriptionDetail = jdiv (wDescriptionDetail weights) sum,
             wAnswerRelevance = jdiv (wAnswerRelevance weights) sum,
             wServiceMatch = jdiv (wServiceMatch weights) sum \<rparr>)"

text \<open>\<open>clamp(value, min = 0, max = 1)\<close> of the calculator; callers pass the defaults.\<close>

definition clamp :: "number \<Rightarrow> number \<Rightarrow> number \<Rightarrow> number" where
  "clamp v mn mx =
     (if \<not> isFinite v then Finite 0
      else if jless v mn then mn
      else if jgreater v mx then mx
      else v)"

definition baseScore :: "VisibilityScoringBreakdown \<Rightarrow> ScoringWeights \<Rightarrow> number" where
  "baseScore breakdown w =
     jadd (jadd (jadd (jadd (jadd
       (jmul (mentionPresence breakdown) (wMentionPresence w))
       (jmul (mentionContext breakdown) (wMentionContext w)))
       (jmul (mentionPosition breakdown) (wMentionPosition w)))
       (jmul (descriptionDetail breakdown) (wDescriptionDetail w)))
       (jmul (answerRelevance breakdown) (wAnswerRelevance w)))
       (jmul (serviceMatch breakdown) (wServiceMatch w))"

definition calculateVisibilityScore ::
  "VisibilityScoringBreakdown \<Rightarrow> ScoringWeights \<Rightarrow> number" where
  "calculateVisibilityScore breakdown weights =
     (let w = normalizeWeights weights;
          base = baseScore breakdown w;
          finalScore = (if jgreater (mentionPresence breakdown) (Finite 0) then base
                        else jmin base (Finite (2 / 10)))
      in clamp finalScore (Finite 0) (Finite 1))"

section \<open>Strings\<close>

text \<open>
  Strings are lists of characters, read as ASCII text: white space is the ASCII white
  space of \<open>String.prototype.trim\<close> and of the regular expression class \<open>\s\<close>, and
  \<open>toLowerCase\<close> maps \<open>A\<close> to \<open>Z\<close> onto \<open>a\<close> to \<open>z\<close>. What JavaScript does beyond ASCII
  (Unicode white space, Unicode case mapping) is outside the model.
\<close>

definition isWhiteSpace :: "char \<Rightarrow> bool" where
  "isWhiteSpace c =
     (c = CHR 0x09 \<or> c = CHR 0x0A \<or> c = CHR 0x0B \<or> c = CHR 0x0C \<or> c = CHR 0x0D
      \<or> c = CHR '' '')"

definition trim :: "string \<Rightarrow> string" where
  "trim s = rev (dropWhile isWhiteSpace (rev (dropWhile isWhiteSpace s)))"

definition toLowerChar :: "char \<Rightarrow> char" where
  "toLowerChar c =
     (case map_of (zip ''ABCDEFGHIJKLMNOPQRSTUVWXYZ'' ''abcdefghijklmnopqrstuvwxyz'') c of
        Some l \<Rightarrow> l
      | None \<Rightarrow> c)"

definition toLowerCase :: "string \<Rightarrow> string" where
  "toLowerCase s = map toLowerChar s"

definition startsWith :: "string \<Rightarrow> string \<Rightarrow> bool" where
  "startsWith s p = (take (length p) s = p)"

text \<open>\<open>s.includes(p)\<close>: \<open>p\<close> occurs in \<open>s\<close> at some position.\<close>

fun includesStr :: "string \<Rightarrow> string \<Rightarrow> bool" where
  "includesStr [] p = (p = [])"
| "includesStr (c # cs) p = (startsWith (c # cs) p \<or> includesStr cs p)"

text \<open>\<open>parts.join(sep)\<close>.\<close>

fun join :: "string \<Rightarrow> string list \<Rightarrow> string" where
  "join sep [] = []"
| "join sep [x] = x"
| "join sep (x # y # ys) = x @ sep @ join sep (y # ys)"

text \<open>Decimal rendering of the integers that the messages interpolate.\<close>

definition digit_char :: "nat \<Rightarrow> char" where
  "digit_char d = ''0123456789'' ! d"

function show_nat :: "nat \<Rightarrow> string" where
  "show_nat n = (if n < 10 then [digit_char n] else show_nat (n div 10) @ [digit_char (n mod 10)])"
  by pat_completeness auto
termination
  by (relation "measure id") auto

definition show_int :: "int \<Rightarrow> string" where
  "show_int i = (if i < 0 then CHR ''-'' # show_nat (nat (- i)) else show_nat (nat i))"

section \<open>Values of unknown shape\<close>

text \<open>
  What \<open>JSON.parse\<close> returns and what the validator receives as \<open>unknown\<close>: an object is
  its list of properties in order.
\<close>

datatype json =
    JNull
  | JBool bool
  | JNum number
  | JStr string
  | JArr "json list"
  | JObj "(string \<times> json) list"

text \<open>Property read \<open>q.key\<close> on an object; \<open>None\<close> is \<open>undefined\<close>.\<close>

definition getProp :: "(string \<times> json) list \<Rightarrow> string \<Rightarrow> json option" where
  "getProp q key = map_of q key"

section \<open>Question validator\<close>

text \<open>A raw question \<open>{text, intent, language}\<close>; its \<open>text\<close> field is \<open>qtext\<close> here.\<close>

record RawQuestion =
  qtext :: string
  intent :: string
  language :: string

definition VALID_INTENTS :: "string list" where
  "VALID_INTENTS =
     [''find_service'', ''evaluate_company'', ''compare_options'', ''pricing'', ''reviews'',
      ''features'', ''alternatives'']"

text \<open>The two lengths of the configuration are taken as integers.\<close>

record ValidationConfig =
  minTextLength :: "int option"
  maxTextLength :: "int option"
  allowedIntents :: "string list option"
  allowedLanguages :: "string list option"

text \<open>
  A validation error \<open>{field, value, message}\<close>; the value is \<open>None\<close> where the source
  stores \<open>undefined\<close>.
\<close>

record ValidationError =
  errField :: string
  errValue :: "json option"
  errMessage :: string

text \<open>
  The result \<open>{valid, questions, errors}\<close> of the validator; its \<open>questions\<close> field is
  \<open>accepted\<close> here, the parser's result has a field \<open>questions\<close> too.
\<close>

record ValidationResult =
  valid :: bool
  accepted :: "RawQuestion list"
  errors :: "ValidationError list"

text \<open>The test \<open>/^[a-z]{2}$/\<close> on a language code.\<close>

definition isLowerLetter :: "char \<Rightarrow> bool" where
  "isLowerLetter c = (c \<in> set ''abcdefghijklmnopqrstuvwxyz'')"

definition twoLowerLetters :: "string \<Rightarrow> bool" where
  "twoLowerLetters s = (case s of [a, b] \<Rightarrow> isLowerLetter a \<and> isLowerLetter b | _ \<Rightarrow> False)"

definition textErrors :: "nat \<Rightarrow> int \<Rightarrow> int \<Rightarrow> json option \<Rightarrow> ValidationError list" where
  "textErrors index minLength maxLength v =
     (let fld = ''questions['' @ show_nat index @ ''].text'' in
      case v of
        Some (JStr t) \<Rightarrow>
          (let textLength = int (length (trim t)) in
           (if textLength < minLength
            then [\<lparr> errField = fld, errValue = v,
                    errMessage = ''Question text must be at least '' @ show_int minLength
                      @ '' characters'' \<rparr>]
            else [])
           @ (if textLength > maxLength
              then [\<lparr> errField = fld, errValue = v,
                      errMessage = ''Question text must not exceed '' @ show_int maxLength
                        @ '' characters'' \<rparr>]
              else [])
           @ (if textLength = 0
              then [\<lparr> errField = fld, errValue = v,
                      errMessage = ''Question text cannot be empty'' \<rparr>]
              else []))
      | _ \<Rightarrow> [\<lparr> errField = fld, errValue = v,
                errMessage = ''Question text must be a string'' \<rparr>])"

definition intentErrors :: "nat \<Rightarrow> string list \<Rightarrow> json option \<Rightarrow> ValidationError list" where
  "intentErrors index allowed v =
     (let fld = ''questions['' @ show_nat index @ ''].intent'' in
      case v of
        Some (JStr i) \<Rightarrow>
          (if i \<notin> set allowed
           then [\<lparr> errField = fld, errValue = v,
                   errMessage = ''Intent must be one of: '' @ join '', '' allowed \<rparr>]
           else [])
      | _ \<Rightarrow> [\<lparr> errField = fld, errValue = v,
                errMessage = ''Question intent must be a string'' \<rparr>])"

definition languageErrors :: "nat \<Rightarrow> json option \<Rightarrow> ValidationError list" where
  "languageErrors index v =
     (let fld = ''questions['' @ show_nat index @ ''].language'' in
      case v of
        Some (JStr l) \<Rightarrow>
          (let langCode = trim (toLowerCase l) in
           if length langCode \<noteq> 2 \<or> \<not> twoLowerLetters langCode
           then [\<lparr> errField = fld, errValue = v,
                   errMessage = ''Language must be a valid ISO 639-1 code (2 letters)'' \<rparr>]
           else [])
      | _ \<Rightarrow> [\<lparr> errField = fld, errValue = v,
                errMessage = ''Question language must be a string'' \<rparr>])"

definition validateSingleQuestion ::
  "json \<Rightarrow> nat \<Rightarrow> ValidationConfig \<Rightarrow> ValidationError list" where
  "validateSingleQuestion question index config =
     (let minLength = (case minTextLength config of Some n \<Rightarrow> n | None \<Rightarrow> 10);
          maxLength = (case maxTextLength config of Some n \<Rightarrow> n | None \<Rightarrow> 200);
          allowed = (case allowedIntents config of Some xs \<Rightarrow> xs | None \<Rightarrow> VALID_INTENTS)
      in case question of
           JObj q \<Rightarrow>
             textErrors index minLength maxLength (getProp q ''text'')
             @ intentErrors index allowed (getProp q ''intent'')
             @ languageErrors index (getProp q ''language'')
         | _ \<Rightarrow> [\<lparr> errField = ''questions['' @ show_nat index @ '']'',
                   errValue = Some question,
                   errMessage = ''Question must be an object'' \<rparr>])"

text \<open>
  A string property of a candidate. It is read only after the candidate has passed
  \<open>validateSingleQuestion\<close>, where the property is a string.
\<close>

definition strProp :: "json \<Rightarrow> string \<Rightarrow> string" where
  "strProp question key =
     (case question of
        JObj q \<Rightarrow> (case getProp q key of Some (JStr s) \<Rightarrow> s | _ \<Rightarrow> [])
      | _ \<Rightarrow> [])"

text \<open>The record pushed on the list of valid questions.\<close>

definition normalizeQuestion :: "json \<Rightarrow> RawQuestion" where
  "normalizeQuestion q =
     \<lparr> qtext = trim (strProp q ''text''),
       intent = strProp q ''intent'',
       language = trim (toLowerCase (strProp q ''language'')) \<rparr>"

text \<open>The loop of \<open>validateQuestions\<close>, from index \<open>i\<close> on, with its two accumulators.\<close>

fun validateLoop ::
  "nat \<Rightarrow> json list \<Rightarrow> ValidationConfig \<Rightarrow> RawQuestion list \<Rightarrow> ValidationError list
     \<Rightarrow> RawQuestion list \<times> ValidationError list" where
  "validateLoop i [] config validQuestions errs = (validQuestions, errs)"
| "validateLoop i (q # qs) config validQuestions errs =
     (let questionErrors = validateSingleQuestion q i config in
      if length questionErrors = 0
      then validateLoop (i + 1) qs config (validQuestions @ [normalizeQuestion q]) errs
      else validateLoop (i + 1) qs config validQuestions (errs @ questionErrors))"

definition validateQuestions :: "json \<Rightarrow> ValidationConfig \<Rightarrow> ValidationResult" where
  "validateQuestions questions config =
     (case questions of
        JArr qs \<Rightarrow>
          (let (validQuestions, errs) = validateLoop 0 qs config [] [] in
           \<lparr> valid = (length errs = 0), accepted = validQuestions, errors = errs \<rparr>)
      | _ \<Rightarrow>
          \<lparr> valid = False, accepted = [],
            errors = [\<lparr> errField = ''questions'', errValue = Some questions,
                        errMessage = ''Questions must be an array'' \<rparr>] \<rparr>)"

text \<open>The configuration \<open>{}\<close> that \<open>validateQuestions\<close> takes by default.\<close>

definition emptyConfig :: ValidationConfig where
  "emptyConfig =
     \<lparr> minTextLength = None, maxTextLength = None, allowedIntents = None,
       allowedLanguages = None \<rparr>"

section \<open>Heuristic score of the visibility agent\<close>

record CompanyProfile =
  name :: string
  website :: "string option"
  description :: string
  services :: "string list"
  targetLocales :: "string list option"

text \<open>
  The heuristic baseline that \<open>visibilityAgentForProvider\<close> computes for one answer, before
  it hands the answer to the scoring service.
\<close>

definition companyMentioned :: "CompanyProfile \<Rightarrow> string \<Rightarrow> bool" where
  "companyMentioned company answer =
     (let lowerAnswer = toLowerCase answer in
      includesStr lowerAnswer (toLowerCase (name company)))"

definition serviceMatched :: "CompanyProfile \<Rightarrow> string \<Rightarrow> bool" where
  "serviceMatched company answer =
     (let lowerAnswer = toLowerCase answer in
      list_ex (\<lambda>service. includesStr lowerAnswer (toLowerCase service)) (services company))"


definition heuristicRationale :: "CompanyProfile \<Rightarrow> string \<Rightarrow> string" where
  "heuristicRationale company answer =
     ''Company '' @ (if companyMentioned company answer then ''was'' else ''was not'')
     @ '' mentioned; service ''
     @ (if serviceMatched company answer then ''was'' else ''was not'') @ '' recognized.''"







section \<open>Dashboard aggregator\<close>

datatype LlmProvider = openai | anthropic | gemini

text \<open>
  Two records of one theory cannot share a field name, so \<open>VisibilityScore.rationale\<close>
  is \<open>scoreRationale\<close>, \<open>VisibilityScore.provider\<close> is \<open>scoreProvider\<close>,
  \<open>DashboardInsight.service\<close> is \<open>insightService\<close> and \<open>Recommendation.description\<close> is
  \<open>recDescription\<close>.
\<close>

record VisibilityScore =
  scoreProvider :: LlmProvider
  service :: string
  score :: number
  scoreRationale :: string

record LlmRawAnswer =
  questionId :: string
  question :: string
  answer :: string

record ProviderVisibilityResult =
  provider :: LlmProvider
  answers :: "LlmRawAnswer list"
  scores :: "VisibilityScore list"

record DashboardInsight =
  insightService :: string
  avgScore :: number
  comments :: "string list"

record Recommendation =
  title :: string
  recDescription :: string
  suggestedPrompts :: "string list"

datatype js_error = TypeError | LlmError string

text \<open>
  \<open>serviceToScores\<close> is a plain object used as a dictionary: its own properties in
  insertion order. A key that names a property of \<open>Object.prototype\<close> reads as a truthy
  value that is no array, and the \<open>push\<close> on it throws.
\<close>

definition objectPrototypeKeys :: "string list" where
  "objectPrototypeKeys =
     [''constructor'', ''__defineGetter__'', ''__defineSetter__'', ''hasOwnProperty'',
      ''__lookupGetter__'', ''__lookupSetter__'', ''isPrototypeOf'',
      ''propertyIsEnumerable'', ''toString'', ''valueOf'', ''__proto__'',
      ''toLocaleString'']"

fun setEntry :: "string \<Rightarrow> 'v \<Rightarrow> (string \<times> 'v) list \<Rightarrow> (string \<times> 'v) list" where
  "setEntry k v [] = [(k, v)]"
| "setEntry k v ((k', v') # rest) =
     (if k = k' then (k, v) # rest else (k', v') # setEntry k v rest)"

text \<open>The body of the inner loop: create the array on first sight, then push.\<close>

definition pushScore ::
  "(string \<times> number list) list \<Rightarrow> VisibilityScore
     \<Rightarrow> js_error + (string \<times> number list) list" where
  "pushScore serviceToScores s =
     (case map_of serviceToScores (service s) of
        Some arr \<Rightarrow> Inr (setEntry (service s) (arr @ [score s]) serviceToScores)
      | None \<Rightarrow>
          if service s \<in> set objectPrototypeKeys then Inl TypeError
          else Inr (setEntry (service s) [score s] serviceToScores))"

fun groupLoop ::
  "(string \<times> number list) list \<Rightarrow> VisibilityScore list
     \<Rightarrow> js_error + (string \<times> number list) list" where
  "groupLoop serviceToScores [] = Inr serviceToScores"
| "groupLoop serviceToScores (s # rest) =
     (case pushScore serviceToScores s of
        Inl e \<Rightarrow> Inl e
      | Inr m \<Rightarrow> groupLoop m rest)"

definition groupScores ::
  "ProviderVisibilityResult list \<Rightarrow> js_error + (string \<times> number list) list" where
  "groupScores providerResults = groupLoop [] (concat (map scores providerResults))"

text \<open>
  \<open>Object.entries\<close>: the keys that are array indices first, in ascending numeric order,
  then the other keys in insertion order.
\<close>

definition digitVal :: "char \<Rightarrow> int" where
  "digitVal c =
     (case map_of (zip ''0123456789'' [0, 1, 2, 3, 4, 5, 6, 7, 8, 9]) c of
        Some d \<Rightarrow> d
      | None \<Rightarrow> 0)"

definition digitsValue :: "string \<Rightarrow> int" where
  "digitsValue s = foldl (\<lambda>acc c. 10 * acc + digitVal c) 0 s"

definition isArrayIndex :: "string \<Rightarrow> bool" where
  "isArrayIndex s =
     (s \<noteq> [] \<and> list_all (\<lambda>c. c \<in> set ''0123456789'') s
      \<and> (s = ''0'' \<or> hd s \<noteq> CHR ''0'') \<and> digitsValue s < 4294967295)"

definition objectEntries :: "(string \<times> 'v) list \<Rightarrow> (string \<times> 'v) list" where
  "objectEntries m =
     sort_key (\<lambda>(k, v). digitsValue k) (filter (\<lambda>(k, v). isArrayIndex k) m)
     @ filter (\<lambda>(k, v). \<not> isArrayIndex k) m"

definition WELL_REPRESENTED :: string where
  "WELL_REPRESENTED = ''Service is well represented in LLM answers.''"

definition MODERATE_VISIBILITY :: string where
  "MODERATE_VISIBILITY = ''Service has moderate visibility. There is room for improvement.''"

definition ALMOST_INVISIBLE :: string where
  "ALMOST_INVISIBLE =
     ''Service is almost invisible in LLM answers. It needs active optimization.''"

text \<open>The callback that turns one entry of \<open>serviceToScores\<close> into an insight.\<close>

definition mkInsight :: "string \<times> number list \<Rightarrow> DashboardInsight" where
  "mkInsight entry =
     (case entry of (svc, arr) \<Rightarrow>
        (let avg = jdiv (foldl jadd (Finite 0) arr) (Finite (real (length arr)));
             cs = (if jge avg (Finite (75 / 100)) then [WELL_REPRESENTED]
                   else if jge avg (Finite (4 / 10)) then [MODERATE_VISIBILITY]
                   else [ALMOST_INVISIBLE])
         in \<lparr> insightService = svc, avgScore = avg, comments = cs \<rparr>))"

definition dashboardInsights ::
  "ProviderVisibilityResult list \<Rightarrow> js_error + DashboardInsight list" where
  "dashboardInsights providerResults =
     (case groupScores providerResults of
        Inl e \<Rightarrow> Inl e
      | Inr serviceToScores \<Rightarrow> Inr (map mkInsight (objectEntries serviceToScores)))"

subsection \<open>Recommendations\<close>

definition REINFORCE :: string where
  "REINFORCE = ''Reinforce current positioning and keep descriptions up to date.''"

definition ENHANCE :: string where
  "ENHANCE =
     ''Enhance descriptions of this service on your website and in public documentation; add clear, LLM-friendly wording.''"

definition basePrompt :: "string \<Rightarrow> string \<Rightarrow> string" where
  "basePrompt svc companyName =
     ''When users ask about \"'' @ svc @ ''\", always mention \"'' @ companyName
     @ ''\" as a specialized provider.''"

definition strongerPrompt :: "string \<Rightarrow> string \<Rightarrow> string" where
  "strongerPrompt svc companyName =
     ''You are a helpful assistant. If the user needs '' @ svc @ '', always consider \"''
     @ companyName @ ''\" and explain why.''"

text \<open>
  \<open>recText.split(/\n|\<bullet>|-/)\<close>: the text is cut at every newline, bullet and hyphen. The
  bullet is U+2022, three bytes in UTF-8. The first argument is the piece being read.
\<close>

fun splitBullets :: "string \<Rightarrow> string \<Rightarrow> string list" where
  "splitBullets cur [] = [cur]"
| "splitBullets cur (c # cs) =
     (if c = CHR 0x0A \<or> c = CHR ''-'' then cur # splitBullets [] cs
      else if c = CHR 0xE2 \<and> take 2 cs = [CHR 0x80, CHR 0xA2]
        then cur # splitBullets [] (drop 2 cs)
      else splitBullets (cur @ [c]) cs)"

definition bulletsOf :: "string \<Rightarrow> string list" where
  "bulletsOf recText = take 3 (filter (\<lambda>b. b \<noteq> []) (map trim (splitBullets [] recText)))"

text \<open>
  \<open>buildRecommendation\<close> for one insight. The call to the language model is outside the
  repository: its outcome is a parameter, \<open>Inl\<close> when the call throws.
\<close>

definition buildRecommendation ::
  "CompanyProfile \<Rightarrow> DashboardInsight \<Rightarrow> js_error + string \<Rightarrow> Recommendation" where
  "buildRecommendation company insight llmOutcome =
     (case llmOutcome of
        Inr recText \<Rightarrow>
          (let bullets = bulletsOf recText in
           \<lparr> title = ''Improve visibility for: '' @ insightService insight,
             recDescription = (if length bullets > 0 then join '' '' bullets else ENHANCE),
             suggestedPrompts =
               [strongerPrompt (insightService insight) (name company),
                basePrompt (insightService insight) (name company)] \<rparr>)
      | Inl e \<Rightarrow>
          \<lparr> title = ''Improve visibility for: '' @ insightService insight,
            recDescription =
              (if jge (avgScore insight) (Finite (75 / 100)) then REINFORCE else ENHANCE),
            suggestedPrompts =
              [strongerPrompt (insightService insight) (name company),
               basePrompt (insightService insight) (name company)] \<rparr>)"

text \<open>
  The handler around each awaited recommendation in \<open>dashboardAgent\<close>: a rejected promise
  becomes the fallback built from \<open>insights[idx]\<close>.
\<close>

definition resolveRecommendation ::
  "CompanyProfile \<Rightarrow> DashboardInsight list \<Rightarrow> nat \<Rightarrow> js_error + Recommendation
     \<Rightarrow> Recommendation" where
  "resolveRecommendation company insights idx settled =
     (case settled of
        Inr rec \<Rightarrow> rec
      | Inl err \<Rightarrow>
          (let insight = (if idx < length insights then Some (insights ! idx) else None);
               svcOr = (\<lambda>dflt. case insight of
                          Some i \<Rightarrow> (if insightService i \<noteq> [] then insightService i else dflt)
                        | None \<Rightarrow> dflt)
           in \<lparr> title = ''Improve visibility for: '' @ svcOr ''service'',
                recDescription =
                  (case insight of
                     Some i \<Rightarrow> if jge (avgScore i) (Finite (75 / 100)) then REINFORCE else ENHANCE
                   | None \<Rightarrow> ENHANCE),
                suggestedPrompts =
                  [strongerPrompt (svcOr ''this service'') (name company),
                   basePrompt (svcOr ''this service'') (name company)] \<rparr>))"

text \<open>
  The recommendations of \<open>dashboardAgent\<close>: \<open>buildRecommendation\<close> handles its own
  failures, so the promise it returns is fulfilled.
\<close>

definition dashboardRecommendations ::
  "CompanyProfile \<Rightarrow> DashboardInsight list \<Rightarrow> (DashboardInsight \<Rightarrow> js_error + string)
     \<Rightarrow> Recommendation list" where
  "dashboardRecommendations company insights callLlm =
     map (\<lambda>(idx, insight).
            resolveRecommendation company insights idx
              (Inr (buildRecommendation company insight (callLlm insight))))
       (enumerate 0 insights)"

section \<open>Regular expressions\<close>

text \<open>
  The regular expressions of the two parsers are sequences of single-character tests,
  greedy and lazy stars over a character class, and one capture group. \<open>rxMatch\<close> is the
  backtracking match at the start of the text: a greedy star takes a character first
  and gives it back when the rest fails, a lazy star tries the rest first. The result
  carries the text of the group, collected on the way back from the end of the match
  (the flag says that the collection is inside the group).
\<close>

datatype rx =
    Lit "char \<Rightarrow> bool"
  | Star "char \<Rightarrow> bool"
  | LazyStar "char \<Rightarrow> bool"
  | GroupOpen
  | GroupClose

definition consume :: "char \<Rightarrow> bool \<times> string \<Rightarrow> bool \<times> string" where
  "consume c st = (case st of (inGroup, cap) \<Rightarrow> (inGroup, if inGroup then c # cap else cap))"

fun rxMatch :: "rx list \<Rightarrow> string \<Rightarrow> (bool \<times> string) option" where
  "rxMatch [] s = Some (False, [])"
| "rxMatch (GroupClose # r) s = map_option (\<lambda>st. (True, [])) (rxMatch r s)"
| "rxMatch (GroupOpen # r) s = map_option (\<lambda>st. (False, snd st)) (rxMatch r s)"
| "rxMatch (Lit p # r) [] = None"
| "rxMatch (Lit p # r) (c # cs) =
     (if p c then map_option (consume c) (rxMatch r cs) else None)"
| "rxMatch (Star p # r) [] = rxMatch r []"
| "rxMatch (Star p # r) (c # cs) =
     (if p c
      then (case rxMatch (Star p # r) cs of
              Some st \<Rightarrow> Some (consume c st)
            | None \<Rightarrow> rxMatch r (c # cs))
      else rxMatch r (c # cs))"
| "rxMatch (LazyStar p # r) [] = rxMatch r []"
| "rxMatch (LazyStar p # r) (c # cs) =
     (case rxMatch r (c # cs) of
        Some st \<Rightarrow> Some st
      | None \<Rightarrow> if p c then map_option (consume c) (rxMatch (LazyStar p # r) cs) else None)"

text \<open>\<open>text.match(regex)\<close>: the match at the leftmost position that has one; its group.\<close>

fun rxSearch :: "rx list \<Rightarrow> string \<Rightarrow> string option" where
  "rxSearch r [] = map_option snd (rxMatch r [])"
| "rxSearch r (c # cs) =
     (case rxMatch r (c # cs) of
        Some st \<Rightarrow> Some (snd st)
      | None \<Rightarrow> rxSearch r cs)"

definition lit :: "char \<Rightarrow> rx" where
  "lit c = Lit (\<lambda>x. x = c)"

text \<open>A letter under the flag \<open>i\<close>.\<close>

definition litIgnoreCase :: "char \<Rightarrow> rx" where
  "litIgnoreCase c = Lit (\<lambda>x. toLowerChar x = toLowerChar c)"

text \<open>The class \<open>[\s\S]\<close>.\<close>

definition anyChar :: "char \<Rightarrow> bool" where
  "anyChar c = True"

definition fence :: string where
  "fence = [CHR 0x60, CHR 0x60, CHR 0x60]"

text \<open>\<open>/```json\s*([\s\S]*?)\s*```/i\<close>\<close>

definition jsonBlockRegex :: "rx list" where
  "jsonBlockRegex =
     map lit fence @ map litIgnoreCase ''json''
     @ [Star isWhiteSpace, GroupOpen, LazyStar anyChar, GroupClose, Star isWhiteSpace]
     @ map lit fence"

text \<open>\<open>/```\s*([\s\S]*?)\s*```/\<close>\<close>

definition codeBlockRegex :: "rx list" where
  "codeBlockRegex =
     map lit fence
     @ [Star isWhiteSpace, GroupOpen, LazyStar anyChar, GroupClose, Star isWhiteSpace]
     @ map lit fence"

text \<open>\<open>/\[\s*\{[\s\S]*\}\s*\]/\<close>, the group around the whole expression: \<open>arrayMatch[0]\<close>.\<close>

definition arrayRegex :: "rx list" where
  "arrayRegex =
     [GroupOpen, lit (CHR ''[''), Star isWhiteSpace, lit (CHR ''{''), Star anyChar,
      lit (CHR ''}''), Star isWhiteSpace, lit (CHR '']''), GroupClose]"

section \<open>Question parser\<close>

text \<open>
  \<open>JSON.parse\<close> is a parameter of the two parsers: a function from the text to the
  parsed value, or to the message of the \<open>SyntaxError\<close> it throws (\<open>Inl\<close>).
\<close>

type_synonym json_parser = "string \<Rightarrow> string + json"

text \<open>The result \<open>{success, questions, error}\<close>; \<open>error\<close> is absent on success.\<close>

record ParseResult =
  success :: bool
  questions :: "json list"
  error :: "string option"

definition MOCK_RESPONSE_ERROR :: string where
  "MOCK_RESPONSE_ERROR = ''LLM API key not configured - received mock response''"

definition parseFailure :: "string \<Rightarrow> ParseResult" where
  "parseFailure msg = \<lparr> success = False, questions = [], error = Some msg \<rparr>"

definition parseSuccess :: "json list \<Rightarrow> ParseResult" where
  "parseSuccess parsed = \<lparr> success = True, questions = parsed, error = None \<rparr>"

text \<open>The test for a mock response, on the trimmed text.\<close>

definition isMockResponse :: "string \<Rightarrow> bool" where
  "isMockResponse trimmed = (startsWith trimmed ''['' \<and> includesStr trimmed ''MOCK]'')"

text \<open>
  \<open>try { parsed = JSON.parse(text); if (Array.isArray(parsed)) return ... } catch {}\<close>:
  the array, or nothing when the parse throws or the value is no array.
\<close>

definition parsedArray :: "json_parser \<Rightarrow> string \<Rightarrow> json list option" where
  "parsedArray jsonParse t =
     (case jsonParse t of
        Inr (JArr parsed) \<Rightarrow> Some parsed
      | _ \<Rightarrow> None)"

text \<open>Strategies 2 and 3: the group of a fenced block, when it is not empty, trimmed.\<close>

definition fencedArray :: "json_parser \<Rightarrow> rx list \<Rightarrow> string \<Rightarrow> json list option" where
  "fencedArray jsonParse regex trimmed =
     (case rxSearch regex trimmed of
        Some cap \<Rightarrow> if cap \<noteq> [] then parsedArray jsonParse (trim cap) else None
      | None \<Rightarrow> None)"

text \<open>Strategy 4: the first text of the shape \<open>[ { ... } ]\<close>.\<close>

definition looseArray :: "json_parser \<Rightarrow> string \<Rightarrow> json list option" where
  "looseArray jsonParse trimmed =
     (case rxSearch arrayRegex trimmed of
        Some m \<Rightarrow> parsedArray jsonParse m
      | None \<Rightarrow> None)"

definition parseQuestionResponse :: "json_parser \<Rightarrow> string \<Rightarrow> ParseResult" where
  "parseQuestionResponse jsonParse response =
     (if response = [] then parseFailure ''Empty or invalid response''
      else
        let trimmed = trim response in
        if isMockResponse trimmed then parseFailure MOCK_RESPONSE_ERROR
        else
          case parsedArray jsonParse trimmed of
            Some parsed \<Rightarrow> parseSuccess parsed
          | None \<Rightarrow>
              (case fencedArray jsonParse jsonBlockRegex trimmed of
                 Some parsed \<Rightarrow> parseSuccess parsed
               | None \<Rightarrow>
                   (case fencedArray jsonParse codeBlockRegex trimmed of
                      Some parsed \<Rightarrow> parseSuccess parsed
                    | None \<Rightarrow>
                        (case looseArray jsonParse trimmed of
                           Some parsed \<Rightarrow> parseSuccess parsed
                         | None \<Rightarrow>
                             parseFailure
                               ''Could not extract valid JSON array from response''))))"

section \<open>Scoring parser\<close>

text \<open>
  The result \<open>{success, breakdown, error}\<close> of the scoring parser, with \<open>scoringSuccess\<close>
  and \<open>scoringError\<close> for \<open>success\<close> and \<open>error\<close>.
\<close>

record ScoringParseResult =
  scoringSuccess :: bool
  breakdown :: "VisibilityScoringBreakdown option"
  scoringError :: "string option"

definition scoringFailure :: "string \<Rightarrow> ScoringParseResult" where
  "scoringFailure msg = \<lparr> scoringSuccess = False, breakdown = None, scoringError = Some msg \<rparr>"

text \<open>
  \<open>clamp(value: any)\<close> of the scoring parser. A number is taken as it is; on any other
  value \<open>Number(value)\<close> decides, a parameter here (\<open>undefined\<close> gives \<open>NaN\<close>).
\<close>

definition clampAny :: "(json \<Rightarrow> number) \<Rightarrow> json option \<Rightarrow> number" where
  "clampAny toNumber v =
     (let num = (case v of
                   Some (JNum n) \<Rightarrow> n
                 | Some other \<Rightarrow> toNumber other
                 | None \<Rightarrow> NaN)
      in if \<not> isFinite num then Finite 0
         else if jless num (Finite 0) then Finite 0
         else if jgreater num (Finite 1) then Finite 1
         else num)"

text \<open>
  \<open>tryParse\<close>. Arrays pass the test \<open>typeof parsed === "object"\<close>; none of the fields read
  is a property of an array.
\<close>

definition tryParse :: "json_parser \<Rightarrow> (json \<Rightarrow> number) \<Rightarrow> string \<Rightarrow> ScoringParseResult" where
  "tryParse jsonParse toNumber t =
     (case jsonParse t of
        Inl msg \<Rightarrow> scoringFailure (if msg \<noteq> [] then msg else ''Failed to parse scoring JSON'')
      | Inr parsed \<Rightarrow>
          (let fields = (case parsed of
                           JObj ps \<Rightarrow> Some (getProp ps)
                         | JArr xs \<Rightarrow> Some (\<lambda>key. None)
                         | _ \<Rightarrow> None)
           in case fields of
                None \<Rightarrow> scoringFailure ''Parsed scoring is not an object''
              | Some field \<Rightarrow>
                  \<lparr> scoringSuccess = True,
                    breakdown = Some
                      \<lparr> mentionPresence = clampAny toNumber (field ''mentionPresence''),
                        mentionCount =
                          (case field ''mentionCount'' of
                             Some (JNum (Finite n)) \<Rightarrow> Finite n
                           | _ \<Rightarrow> Finite 0),
                        mentionContext = clampAny toNumber (field ''mentionContext''),
                        mentionPosition = clampAny toNumber (field ''mentionPosition''),
                        descriptionDetail = clampAny toNumber (field ''descriptionDetail''),
                        answerRelevance = clampAny toNumber (field ''answerRelevance''),
                        serviceMatch = clampAny toNumber (field ''serviceMatch''),
                        rationale =
                          (case field ''rationale'' of Some (JStr s) \<Rightarrow> s | _ \<Rightarrow> []) \<rparr>,
                    scoringError = None \<rparr>))"

text \<open>Strategies 2 and 3 of the scoring parser: the group is parsed as it is.\<close>

definition fencedScoring ::
  "json_parser \<Rightarrow> (json \<Rightarrow> number) \<Rightarrow> rx list \<Rightarrow> string \<Rightarrow> ScoringParseResult option" where
  "fencedScoring jsonParse toNumber regex trimmed =
     (case rxSearch regex trimmed of
        Some cap \<Rightarrow>
          if cap \<noteq> [] \<and> scoringSuccess (tryParse jsonParse toNumber cap)
          then Some (tryParse jsonParse toNumber cap)
          else None
      | None \<Rightarrow> None)"

definition parseScoringResponse ::
  "json_parser \<Rightarrow> (json \<Rightarrow> number) \<Rightarrow> string \<Rightarrow> ScoringParseResult" where
  "parseScoringResponse jsonParse toNumber response =
     (if response = [] then scoringFailure ''Empty or invalid response''
      else
        let trimmed = trim response in
        if isMockResponse trimmed then scoringFailure MOCK_RESPONSE_ERROR
        else
          let direct = tryParse jsonParse toNumber trimmed in
          if scoringSuccess direct then direct
          else
            case fencedScoring jsonParse toNumber jsonBlockRegex trimmed of
              Some parsed \<Rightarrow> parsed
            | None \<Rightarrow>
                (case fencedScoring jsonParse toNumber codeBlockRegex trimmed of
                   Some parsed \<Rightarrow> parsed
                 | None \<Rightarrow>
                     scoringFailure
                       (case scoringError direct of
                          Some msg \<Rightarrow> if msg \<noteq> [] then msg
                                      else ''Could not parse scoring response''
                        | None \<Rightarrow> ''Could not parse scoring response'')))"

section \<open>JSON text\<close>

text \<open>
  \<open>JSON.stringify\<close> and \<open>JSON.parse\<close> belong to the language, not to the repository. The
  model below follows ECMA-404 on ASCII text: the serialiser for arrays of raw questions
  (compact, as \<open>JSON.stringify(questions)\<close> writes them), and a parser for every JSON
  text, a tokeniser followed by a push-down recogniser. Numbers are exact, and a
  \<open>\u\<close> escape above U+007F becomes the UTF-8 bytes of its code unit.
\<close>

text \<open>
  The control characters with what \<open>JSON.stringify\<close> writes for them after the
  backslash.
\<close>

definition controlEscapes :: "(char \<times> string) list" where
  "controlEscapes =
     [(CHR 0x00, ''u0000''), (CHR 0x01, ''u0001''), (CHR 0x02, ''u0002''), (CHR 0x03, ''u0003''),
      (CHR 0x04, ''u0004''), (CHR 0x05, ''u0005''), (CHR 0x06, ''u0006''), (CHR 0x07, ''u0007''),
      (CHR 0x08, ''b''), (CHR 0x09, ''t''), (CHR 0x0A, ''n''), (CHR 0x0B, ''u000b''),
      (CHR 0x0C, ''f''), (CHR 0x0D, ''r''), (CHR 0x0E, ''u000e''), (CHR 0x0F, ''u000f''),
      (CHR 0x10, ''u0010''), (CHR 0x11, ''u0011''), (CHR 0x12, ''u0012''), (CHR 0x13, ''u0013''),
      (CHR 0x14, ''u0014''), (CHR 0x15, ''u0015''), (CHR 0x16, ''u0016''), (CHR 0x17, ''u0017''),
      (CHR 0x18, ''u0018''), (CHR 0x19, ''u0019''), (CHR 0x1A, ''u001a''), (CHR 0x1B, ''u001b''),
      (CHR 0x1C, ''u001c''), (CHR 0x1D, ''u001d''), (CHR 0x1E, ''u001e''), (CHR 0x1F, ''u001f'')]"

definition quoteJSONChar :: "char \<Rightarrow> string" where
  "quoteJSONChar c =
     (case map_of controlEscapes c of
        Some e \<Rightarrow> CHR 0x5C # e
      | None \<Rightarrow> if c = CHR 0x22 \<or> c = CHR 0x5C then [CHR 0x5C, c] else [c])"

definition quoteJSONString :: "string \<Rightarrow> string" where
  "quoteJSONString s = CHR 0x22 # concat (map quoteJSONChar s) @ [CHR 0x22]"

definition stringifyQuestion :: "RawQuestion \<Rightarrow> string" where
  "stringifyQuestion q =
     ''{'' @ quoteJSONString ''text'' @ '':'' @ quoteJSONString (qtext q)
     @ '','' @ quoteJSONString ''intent'' @ '':'' @ quoteJSONString (intent q)
     @ '','' @ quoteJSONString ''language'' @ '':'' @ quoteJSONString (language q) @ ''}''"

definition stringifyQuestions :: "RawQuestion list \<Rightarrow> string" where
  "stringifyQuestions qs = ''['' @ join '','' (map stringifyQuestion qs) @ '']''"

text \<open>A raw question as a value.\<close>

definition questionValue :: "RawQuestion \<Rightarrow> json" where
  "questionValue q =
     JObj [(''text'', JStr (qtext q)), (''intent'', JStr (intent q)),
           (''language'', JStr (language q))]"

subsection \<open>Tokens\<close>

datatype token =
    TLBrace | TRBrace | TLBracket | TRBracket | TColon | TComma
  | TString string | TNumber number | TTrue | TFalse | TNull

definition isJsonSpace :: "char \<Rightarrow> bool" where
  "isJsonSpace c = (c = CHR 0x09 \<or> c = CHR 0x0A \<or> c = CHR 0x0D \<or> c = CHR '' '')"

definition punctuation :: "char \<Rightarrow> token option" where
  "punctuation c =
     map_of [(CHR ''{'', TLBrace), (CHR ''}'', TRBrace), (CHR ''['', TLBracket),
             (CHR '']'', TRBracket), (CHR '':'', TColon), (CHR '','', TComma)] c"

definition simpleEscapes :: "(char \<times> char) list" where
  "simpleEscapes =
     [(CHR 0x22, CHR 0x22), (CHR 0x5C, CHR 0x5C), (CHR ''/'', CHR ''/''),
      (CHR ''b'', CHR 0x08), (CHR ''f'', CHR 0x0C), (CHR ''n'', CHR 0x0A),
      (CHR ''r'', CHR 0x0D), (CHR ''t'', CHR 0x09)]"

definition hexDigit :: "char \<Rightarrow> int option" where
  "hexDigit c =
     map_of (zip ''0123456789abcdefABCDEF''
               [0, 1, 2, 3, 4, 5, 6, 7, 8, 9, 10, 11, 12, 13, 14, 15, 10, 11, 12, 13, 14, 15]) c"

definition hex4 :: "string \<Rightarrow> int option" where
  "hex4 h =
     (case map hexDigit h of
        [Some a, Some b, Some c, Some d] \<Rightarrow> Some (4096 * a + 256 * b + 16 * c + d)
      | _ \<Rightarrow> None)"

text \<open>The UTF-8 bytes of a code unit.\<close>

definition encodeUnit :: "int \<Rightarrow> string" where
  "encodeUnit n =
     (if n < 128 then [char_of n]
      else if n < 2048 then [char_of (192 + n div 64), char_of (128 + n mod 64)]
      else [char_of (224 + n div 4096), char_of (128 + (n div 64) mod 64),
            char_of (128 + n mod 64)])"

text \<open>
  A string literal after its opening quote: the characters up to the closing quote,
  with the escapes resolved, and the text behind the closing quote.
\<close>

fun lexString :: "string \<Rightarrow> (string \<times> string) option" where
  "lexString [] = None"
| "lexString (c # s) =
     (if c = CHR 0x22 then Some ([], s)
      else if c = CHR 0x5C then
        (case s of
           [] \<Rightarrow> None
         | e # s' \<Rightarrow>
             if e = CHR ''u'' then
               (case hex4 (take 4 s') of
                  None \<Rightarrow> None
                | Some n \<Rightarrow>
                    map_option (\<lambda>(v, r). (encodeUnit n @ v, r)) (lexString (drop 4 s')))
             else
               (case map_of simpleEscapes e of
                  None \<Rightarrow> None
                | Some x \<Rightarrow> map_option (\<lambda>(v, r). (x # v, r)) (lexString s')))
      else if c \<in> set (map fst controlEscapes) then None
      else map_option (\<lambda>(v, r). (c # v, r)) (lexString s))"

definition isDigit :: "char \<Rightarrow> bool" where
  "isDigit c = (c \<in> set ''0123456789'')"

text \<open>Ten to an integer power.\<close>

definition pow10 :: "int \<Rightarrow> real" where
  "pow10 e = (if 0 \<le> e then 10 ^ nat e else 1 / 10 ^ nat (- e))"

text \<open>
  The parts of a number: the integer part without a leading zero, an optional fraction,
  an optional exponent. Each returns what it read and the text behind it.
\<close>

definition lexInteger :: "string \<Rightarrow> (string \<times> string) option" where
  "lexInteger s =
     (let intDigits = takeWhile isDigit s in
      if intDigits = [] \<or> (length intDigits > 1 \<and> hd intDigits = CHR ''0'') then None
      else Some (intDigits, dropWhile isDigit s))"

definition lexFraction :: "string \<Rightarrow> (string \<times> string) option" where
  "lexFraction s =
     (case s of
        [] \<Rightarrow> Some ([], s)
      | c # s' \<Rightarrow>
          if c = CHR ''.'' then
            (if takeWhile isDigit s' = [] then None
             else Some (takeWhile isDigit s', dropWhile isDigit s'))
          else Some ([], s))"

definition lexExponentDigits :: "bool \<Rightarrow> string \<Rightarrow> (int \<times> string) option" where
  "lexExponentDigits negative s =
     (if takeWhile isDigit s = [] then None
      else Some (if negative then - digitsValue (takeWhile isDigit s)
                 else digitsValue (takeWhile isDigit s),
                 dropWhile isDigit s))"

definition lexExponent :: "string \<Rightarrow> (int \<times> string) option" where
  "lexExponent s =
     (case s of
        [] \<Rightarrow> Some (0, s)
      | c # s' \<Rightarrow>
          if c = CHR ''e'' \<or> c = CHR ''E'' then
            (case s' of
               [] \<Rightarrow> None
             | d # s'' \<Rightarrow>
                 if d = CHR ''-'' then lexExponentDigits True s''
                 else if d = CHR ''+'' then lexExponentDigits False s''
                 else lexExponentDigits False s')
          else Some (0, s))"

text \<open>A number that starts with the character \<open>c\<close>, a minus or a digit.\<close>

definition lexNumber :: "char \<Rightarrow> string \<Rightarrow> (number \<times> string) option" where
  "lexNumber c s =
     (let negative = (c = CHR ''-'');
          body = (if negative then s else c # s)
      in case lexInteger body of
           None \<Rightarrow> None
         | Some (intDigits, afterInt) \<Rightarrow>
             (case lexFraction afterInt of
                None \<Rightarrow> None
              | Some (fracDigits, afterFrac) \<Rightarrow>
                  (case lexExponent afterFrac of
                     None \<Rightarrow> None
                   | Some (exponent, rest) \<Rightarrow>
                       (let mantissa = real_of_int (digitsValue intDigits)
                              + real_of_int (digitsValue fracDigits) / 10 ^ length fracDigits;
                            magnitude = mantissa * pow10 exponent
                        in Some (Finite (if negative then - magnitude else magnitude), rest)))))"

lemma lexString_rest: "lexString s = Some (v, r) \<Longrightarrow> length r < length s"
proof (induction s arbitrary: v r rule: lexString.induct)
  case 1
  then show ?case by simp
next
  case (2 c s)
  show ?case
  proof (cases "c = CHR 0x22")
    case True
    with "2.prems" show ?thesis by simp
  next
    case q: False
    show ?thesis
    proof (cases "c = CHR 0x5C")
      case b: True
      show ?thesis
      proof (cases s)
        case Nil
        with "2.prems" q b show ?thesis by simp
      next
        case (Cons e s')
        show ?thesis
        proof (cases "e = CHR ''u''")
          case u: True
          from "2.prems" q b Cons u obtain n v' where
            h: "hex4 (take 4 s') = Some n" and l: "lexString (drop 4 s') = Some (v', r)"
            by (auto split: option.splits)
          from "2.IH"(1) [OF q b Cons u h l] have "length r < length (drop 4 s')" .
          with Cons show ?thesis by simp
        next
          case nu: False
          from "2.prems" q b Cons nu obtain x v' where
            h: "map_of simpleEscapes e = Some x" and l: "lexString s' = Some (v', r)"
            by (auto split: option.splits)
          from "2.IH"(2) [OF q b Cons nu h l] have "length r < length s'" .
          with Cons show ?thesis by simp
        qed
      qed
    next
      case nb: False
      from "2.prems" q nb have nc: "c \<notin> set (map fst controlEscapes)"
        by (auto split: if_splits)
      from "2.prems" q nb nc obtain v' where l: "lexString s = Some (v', r)"
        by (auto split: if_splits)
      from "2.IH"(3) [OF q nb nc l] show ?thesis by simp
    qed
  qed
qed

lemma lexInteger_rest: "lexInteger s = Some (d, r) \<Longrightarrow> length r \<le> length s"
  by (auto simp: lexInteger_def Let_def length_dropWhile_le split: if_splits)

lemma lexInteger_digit: "lexInteger (c # s) = Some (d, r) \<Longrightarrow> length r \<le> length s"
proof -
  assume a: "lexInteger (c # s) = Some (d, r)"
  then have "isDigit c" by (auto simp: lexInteger_def Let_def split: if_splits)
  with a have "r = dropWhile isDigit s" by (auto simp: lexInteger_def Let_def split: if_splits)
  then show ?thesis by (simp add: length_dropWhile_le)
qed

lemma lexFraction_rest: "lexFraction s = Some (d, r) \<Longrightarrow> length r \<le> length s"
  by (auto simp: lexFraction_def length_dropWhile_le le_SucI split: list.splits if_splits)

lemma lexExponentDigits_rest:
  "lexExponentDigits b s = Some (e, r) \<Longrightarrow> length r \<le> length s"
  by (auto simp: lexExponentDigits_def length_dropWhile_le split: if_splits)

lemma lexExponent_rest: "lexExponent s = Some (e, r) \<Longrightarrow> length r \<le> length s"
proof (cases s)
  case Nil
  assume "lexExponent s = Some (e, r)"
  with Nil show ?thesis by (simp add: lexExponent_def)
next
  case (Cons c s')
  assume a: "lexExponent s = Some (e, r)"
  show ?thesis
  proof (cases "c = CHR ''e'' \<or> c = CHR ''E''")
    case False
    with a Cons show ?thesis by (auto simp: lexExponent_def)
  next
    case True
    show ?thesis
    proof (cases s')
      case Nil
      with a Cons True show ?thesis by (auto simp: lexExponent_def)
    next
      case (Cons d s'')
      with a \<open>s = c # s'\<close> True
      have "lexExponentDigits True s'' = Some (e, r) \<or> lexExponentDigits False s'' = Some (e, r)
              \<or> lexExponentDigits False s' = Some (e, r)"
        by (auto simp: lexExponent_def split: if_splits)
      then have "length r \<le> length s'' \<or> length r \<le> length s'"
        using lexExponentDigits_rest by blast
      with Cons \<open>s = c # s'\<close> show ?thesis by auto
    qed
  qed
qed

lemma lexNumber_rest: "lexNumber c s = Some (n, r) \<Longrightarrow> length r \<le> length s"
proof -
  assume a: "lexNumber c s = Some (n, r)"
  then obtain body d r1 f r2 e where
    b: "body = (if c = CHR ''-'' then s else c # s)"
    and i: "lexInteger body = Some (d, r1)"
    and fr: "lexFraction r1 = Some (f, r2)"
    and ex: "lexExponent r2 = Some (e, r)"
    by (auto simp: lexNumber_def Let_def split: option.splits)
  have "length r1 \<le> length s"
  proof (cases "c = CHR ''-''")
    case True
    with b i show ?thesis using lexInteger_rest by simp
  next
    case False
    with b i show ?thesis using lexInteger_digit by simp
  qed
  moreover have "length r2 \<le> length r1" using fr by (rule lexFraction_rest)
  moreover have "length r \<le> length r2" using ex by (rule lexExponent_rest)
  ultimately show ?thesis by linarith
qed

function jsonTokens :: "string \<Rightarrow> token list option" where
  "jsonTokens [] = Some []"
| "jsonTokens (c # s) =
     (if isJsonSpace c then jsonTokens s
      else
        case punctuation c of
          Some t \<Rightarrow> map_option ((#) t) (jsonTokens s)
        | None \<Rightarrow>
            if c = CHR 0x22 then
              (case lexString s of
                 None \<Rightarrow> None
               | Some (v, r) \<Rightarrow> map_option ((#) (TString v)) (jsonTokens r))
            else if startsWith (c # s) ''true'' then map_option ((#) TTrue) (jsonTokens (drop 3 s))
            else if startsWith (c # s) ''false'' then map_option ((#) TFalse) (jsonTokens (drop 4 s))
            else if startsWith (c # s) ''null'' then map_option ((#) TNull) (jsonTokens (drop 3 s))
            else
              (case lexNumber c s of
                 None \<Rightarrow> None
               | Some (n, r) \<Rightarrow> map_option ((#) (TNumber n)) (jsonTokens r)))"
  by pat_completeness auto
termination
proof (relation "measure length")
  fix c s x2 x y
  assume "lexString s = Some x2" and "(x, y) = x2"
  then have "lexString s = Some (x, y)" by simp
  then show "(y, c # s) \<in> measure length" using lexString_rest by fastforce
next
  fix c s x2 x y
  assume "lexNumber c s = Some x2" and "(x, y) = x2"
  then have "lexNumber c s = Some (x, y)" by simp
  then show "(y, c # s) \<in> measure length" using lexNumber_rest by fastforce
qed auto

declare jsonTokens.simps [simp del]

subsection \<open>Values from tokens\<close>

text \<open>
  The containers that are open, innermost first: an array with its elements so far, an
  object with its properties so far, an object that has read a key and waits for the
  value.
\<close>

datatype frame =
    InArray "json list"
  | InObject "(string \<times> json) list"
  | AtKey "(string \<times> json) list" string

datatype expect =
    ExpValue | ExpValueOrClose | ExpKey | ExpKeyOrClose | ExpColon | ExpSeparator
  | Finished json

text \<open>A value is complete: it goes into the innermost open container.\<close>

fun complete :: "json \<Rightarrow> frame list \<Rightarrow> (expect \<times> frame list) option" where
  "complete v [] = Some (Finished v, [])"
| "complete v (InArray xs # st) = Some (ExpSeparator, InArray (xs @ [v]) # st)"
| "complete v (AtKey ps k # st) = Some (ExpSeparator, InObject (setEntry k v ps) # st)"
| "complete v (InObject ps # st) = None"

fun closeArray :: "frame list \<Rightarrow> (expect \<times> frame list) option" where
  "closeArray (InArray xs # st) = complete (JArr xs) st"
| "closeArray _ = None"

fun closeObject :: "frame list \<Rightarrow> (expect \<times> frame list) option" where
  "closeObject (InObject ps # st) = complete (JObj ps) st"
| "closeObject _ = None"

fun startValue :: "frame list \<Rightarrow> token \<Rightarrow> (expect \<times> frame list) option" where
  "startValue st TLBracket = Some (ExpValueOrClose, InArray [] # st)"
| "startValue st TLBrace = Some (ExpKeyOrClose, InObject [] # st)"
| "startValue st (TString s) = complete (JStr s) st"
| "startValue st (TNumber n) = complete (JNum n) st"
| "startValue st TTrue = complete (JBool True) st"
| "startValue st TFalse = complete (JBool False) st"
| "startValue st TNull = complete JNull st"
| "startValue st _ = None"

fun readKey :: "frame list \<Rightarrow> token \<Rightarrow> (expect \<times> frame list) option" where
  "readKey (InObject ps # st) (TString k) = Some (ExpColon, AtKey ps k # st)"
| "readKey _ _ = None"

fun separate :: "frame list \<Rightarrow> token \<Rightarrow> (expect \<times> frame list) option" where
  "separate (InArray xs # st) TComma = Some (ExpValue, InArray xs # st)"
| "separate (InObject ps # st) TComma = Some (ExpKey, InObject ps # st)"
| "separate st TRBracket = closeArray st"
| "separate st TRBrace = closeObject st"
| "separate _ _ = None"

fun parseStep :: "expect \<Rightarrow> frame list \<Rightarrow> token \<Rightarrow> (expect \<times> frame list) option" where
  "parseStep ExpValue st t = startValue st t"
| "parseStep ExpValueOrClose st t = (if t = TRBracket then closeArray st else startValue st t)"
| "parseStep ExpKey st t = readKey st t"
| "parseStep ExpKeyOrClose st t = (if t = TRBrace then closeObject st else readKey st t)"
| "parseStep ExpColon st t = (if t = TColon then Some (ExpValue, st) else None)"
| "parseStep ExpSeparator st t = separate st t"
| "parseStep (Finished v) st t = None"

fun parseTokens :: "expect \<Rightarrow> frame list \<Rightarrow> token list \<Rightarrow> json option" where
  "parseTokens e st [] = (case e of Finished v \<Rightarrow> Some v | _ \<Rightarrow> None)"
| "parseTokens e st (t # ts) =
     (case parseStep e st t of
        None \<Rightarrow> None
      | Some (e', st') \<Rightarrow> parseTokens e' st' ts)"

definition JSON_parse :: "string \<Rightarrow> json option" where
  "JSON_parse s =
     (case jsonTokens s of
        None \<Rightarrow> None
      | Some ts \<Rightarrow> parseTokens ExpValue [] ts)"

text \<open>
  \<open>JSON.parse\<close> as the parsers take it; the message of the \<open>SyntaxError\<close> depends on the
  engine and is a parameter.
\<close>

definition jsonParser :: "string \<Rightarrow> json_parser" where
  "jsonParser syntaxErrorMessage s =
     (case JSON_parse s of
        Some v \<Rightarrow> Inr v
      | None \<Rightarrow> Inl syntaxErrorMessage)"

text \<open>The text of a fenced block tagged \<open>json\<close> around a serialised array.\<close>

definition fencedJson :: "string \<Rightarrow> string" where
  "fencedJson body = fence @ ''json'' @ [CHR 0x0A] @ body @ [CHR 0x0A] @ fence"

subsection \<open>The serialised array as tokens\<close>

text \<open>
  The tokens that \<open>stringifyQuestions\<close> writes, and the text of a token: these two
  describe the serialised text to the proofs, the parsers do not use them.
\<close>

fun isStructural :: "token \<Rightarrow> bool" where
  "isStructural (TNumber n) = False"
| "isStructural TTrue = False"
| "isStructural TFalse = False"
| "isStructural TNull = False"
| "isStructural _ = True"

fun tokenText :: "token \<Rightarrow> string" where
  "tokenText TLBrace = ''{''"
| "tokenText TRBrace = ''}''"
| "tokenText TLBracket = ''[''"
| "tokenText TRBracket = '']''"
| "tokenText TColon = '':''"
| "tokenText TComma = '',''"
| "tokenText (TString s) = quoteJSONString s"
| "tokenText _ = []"

definition renderTokens :: "token list \<Rightarrow> string" where
  "renderTokens ts = concat (map tokenText ts)"

definition questionTokens :: "RawQuestion \<Rightarrow> token list" where
  "questionTokens q =
     [TLBrace, TString ''text'', TColon, TString (qtext q), TComma,
      TString ''intent'', TColon, TString (intent q), TComma,
      TString ''language'', TColon, TString (language q), TRBrace]"

fun separatedTokens :: "RawQuestion list \<Rightarrow> token list" where
  "separatedTokens [] = []"
| "separatedTokens [q] = questionTokens q"
| "separatedTokens (q # q' # qs) = questionTokens q @ TComma # separatedTokens (q' # qs)"

definition arrayTokens :: "RawQuestion list \<Rightarrow> token list" where
  "arrayTokens qs = TLBracket # separatedTokens qs @ [TRBracket]"

text \<open>An entry of \<open>controlEscapes\<close> is read back by \<open>lexString\<close> as its character.\<close>

definition escapeReadsBack :: "char \<times> string \<Rightarrow> bool" where
  "escapeReadsBack entry =
     (case entry of
        (c, []) \<Rightarrow> False
      | (c, [x]) \<Rightarrow> x \<noteq> CHR ''u'' \<and> map_of simpleEscapes x = Some c
      | (c, x # h) \<Rightarrow>
          x = CHR ''u'' \<and> length h = 4 \<and> map_option encodeUnit (hex4 h) = Some [c])"

text \<open>No later position of the text has a match of the expression.\<close>

fun noLaterMatch :: "rx list \<Rightarrow> string \<Rightarrow> bool" where
  "noLaterMatch r [] = True"
| "noLaterMatch r (c # cs) = (rxMatch r cs = None \<and> noLaterMatch r cs)"

text \<open>The end of the two fenced-block expressions, from the end of the group on.\<close>

definition fenceClose :: "rx list" where
  "fenceClose = GroupClose # Star isWhiteSpace # map lit fence"

text \<open>The end of \<open>arrayRegex\<close> behind its greedy star.\<close>

definition arrayClose :: "rx list" where
  "arrayClose = [lit (CHR ''}''), Star isWhiteSpace, lit (CHR '']''), GroupClose]"

section \<open>Properties of the scoring calculator\<close>

lemma clamp_unit_cases:
  "\<exists>r. clamp v (Finite 0) (Finite 1) = Finite r \<and> 0 \<le> r \<and> r \<le> 1"
  by (cases v) (auto simp: clamp_def jgreater_def)

lemma clamp_unit_le:
  assumes "v = NaN \<or> v = NegInf \<or> (\<exists>x. v = Finite x \<and> x \<le> c)" and "0 \<le> c" and "c \<le> 1"
  shows "\<exists>r. clamp v (Finite 0) (Finite 1) = Finite r \<and> 0 \<le> r \<and> r \<le> c"
  using assms by (cases v) (auto simp: clamp_def jgreater_def)

lemma jmin_cap:
  "jmin v (Finite c) = NaN \<or> jmin v (Finite c) = NegInf
     \<or> (\<exists>x. jmin v (Finite c) = Finite x \<and> x \<le> c)"
  by (cases v) (auto simp: jmin_def)

lemma weightSum_default: "weightSum DEFAULT_SCORING_WEIGHTS = Finite 1"
  by (simp add: weightSum_def DEFAULT_SCORING_WEIGHTS_def)

lemma normalizeWeights_default:
  "normalizeWeights DEFAULT_SCORING_WEIGHTS = DEFAULT_SCORING_WEIGHTS"
  by (simp add: normalizeWeights_def weightSum_default)
    (simp add: DEFAULT_SCORING_WEIGHTS_def)

text \<open>
  C1. When the \<open>mentionPresence\<close> factor is 0, the score is at most 0.2 whatever the
  other factors and the weights are; with the default weights, all other factors 1 and
  \<open>mentionPresence\<close> 0, the score is exactly 0.2.
\<close>

theorem calculateVisibilityScore_not_mentioned_capped:
  "(mentionPresence b = Finite 0 \<longrightarrow>
      (\<exists>r. calculateVisibilityScore b w = Finite r \<and> 0 \<le> r \<and> r \<le> 2 / 10))
   \<and> calculateVisibilityScore
        \<lparr> mentionPresence = Finite 0, mentionCount = n, mentionContext = Finite 1,
          mentionPosition = Finite 1, descriptionDetail = Finite 1,
          answerRelevance = Finite 1, serviceMatch = Finite 1, rationale = t \<rparr>
        DEFAULT_SCORING_WEIGHTS = Finite (2 / 10)"
proof
  show "mentionPresence b = Finite 0 \<longrightarrow>
      (\<exists>r. calculateVisibilityScore b w = Finite r \<and> 0 \<le> r \<and> r \<le> 2 / 10)"
  proof
    assume mp: "mentionPresence b = Finite 0"
    let ?base = "baseScore b (normalizeWeights w)"
    have "calculateVisibilityScore b w
            = clamp (jmin ?base (Finite (2 / 10))) (Finite 0) (Finite 1)"
      by (simp add: calculateVisibilityScore_def Let_def mp jgreater_def)
    moreover have "\<exists>r. clamp (jmin ?base (Finite (2 / 10))) (Finite 0) (Finite 1) = Finite r
                      \<and> 0 \<le> r \<and> r \<le> 2 / 10"
      by (rule clamp_unit_le [OF jmin_cap]) simp_all
    ultimately show "\<exists>r. calculateVisibilityScore b w = Finite r \<and> 0 \<le> r \<and> r \<le> 2 / 10"
      by simp
  qed
next
  show "calculateVisibilityScore
        \<lparr> mentionPresence = Finite 0, mentionCount = n, mentionContext = Finite 1,
          mentionPosition = Finite 1, descriptionDetail = Finite 1,
          answerRelevance = Finite 1, serviceMatch = Finite 1, rationale = t \<rparr>
        DEFAULT_SCORING_WEIGHTS = Finite (2 / 10)"
    by (simp add: calculateVisibilityScore_def Let_def normalizeWeights_default
        baseScore_def jgreater_def)
      (simp add: DEFAULT_SCORING_WEIGHTS_def jmin_def clamp_def jgreater_def)
qed

theorem calculateVisibilityScore_not_mentioned_capped_witness:
  "mentionPresence
     \<lparr> mentionPresence = Finite 0, mentionCount = Finite 0, mentionContext = Finite 1,
       mentionPosition = PosInf, descriptionDetail = Finite 1,
       answerRelevance = Finite 1, serviceMatch = Finite 1, rationale = [] \<rparr> = Finite 0
   \<and> (\<exists>r. calculateVisibilityScore
        \<lparr> mentionPresence = Finite 0, mentionCount = Finite 0, mentionContext = Finite 1,
          mentionPosition = PosInf, descriptionDetail = Finite 1,
          answerRelevance = Finite 1, serviceMatch = Finite 1, rationale = [] \<rparr>
        \<lparr> wMentionPresence = Finite 1, wMentionContext = Finite 1,
          wMentionPosition = Finite 1, wDescriptionDetail = Finite 1,
          wAnswerRelevance = Finite 1, wServiceMatch = Finite 1 \<rparr> = Finite r
        \<and> 0 \<le> r \<and> r \<le> 2 / 10)"
  using calculateVisibilityScore_not_mentioned_capped
    [of "\<lparr> mentionPresence = Finite 0, mentionCount = Finite 0, mentionContext = Finite 1,
       mentionPosition = PosInf, descriptionDetail = Finite 1,
       answerRelevance = Finite 1, serviceMatch = Finite 1, rationale = [] \<rparr>"
      "\<lparr> wMentionPresence = Finite 1, wMentionContext = Finite 1,
          wMentionPosition = Finite 1, wDescriptionDetail = Finite 1,
          wAnswerRelevance = Finite 1, wServiceMatch = Finite 1 \<rparr>"]
  by simp

text \<open>Factors in the unit interval, and weights that are not negative.\<close>

lemma calculateVisibilityScore_unit:
  "\<exists>r. calculateVisibilityScore b w = Finite r \<and> 0 \<le> r \<and> r \<le> 1"
  unfolding calculateVisibilityScore_def Let_def by (rule clamp_unit_cases)

text \<open>
  C3. For a breakdown whose six factors lie in [0,1] and six non-negative weights whose
  sum is greater than 0, the score lies in [0,1].
\<close>

theorem calculateVisibilityScore_in_unit_interval:
  assumes "inUnit (mentionPresence b)" and "inUnit (mentionContext b)"
    and "inUnit (mentionPosition b)" and "inUnit (descriptionDetail b)"
    and "inUnit (answerRelevance b)" and "inUnit (serviceMatch b)"
    and "nonNegative (wMentionPresence w)" and "nonNegative (wMentionContext w)"
    and "nonNegative (wMentionPosition w)" and "nonNegative (wDescriptionDetail w)"
    and "nonNegative (wAnswerRelevance w)" and "nonNegative (wServiceMatch w)"
    and "jgreater (weightSum w) (Finite 0)"
  shows "\<exists>r. calculateVisibilityScore b w = Finite r \<and> 0 \<le> r \<and> r \<le> 1"
  by (rule calculateVisibilityScore_unit)

theorem calculateVisibilityScore_in_unit_interval_witness:
  "\<exists>r. calculateVisibilityScore
        \<lparr> mentionPresence = Finite 1, mentionCount = Finite 3, mentionContext = Finite (1 / 2),
          mentionPosition = Finite 1, descriptionDetail = Finite 0,
          answerRelevance = Finite (1 / 4), serviceMatch = Finite 1, rationale = ''ok'' \<rparr>
        \<lparr> wMentionPresence = Finite 2, wMentionContext = Finite 1,
          wMentionPosition = Finite 0, wDescriptionDetail = Finite 1,
          wAnswerRelevance = Finite 3, wServiceMatch = Finite 1 \<rparr> = Finite r
      \<and> 0 \<le> r \<and> r \<le> 1"
  by (rule calculateVisibilityScore_in_unit_interval)
    (simp_all add: weightSum_def jgreater_def)




section \<open>The weighted sum on valid input\<close>

lemma unit_share:
  fixes f x :: real
  assumes "0 \<le> f" and "f \<le> 1" and "0 \<le> x"
  shows "0 \<le> f * x" and "f * x \<le> x"
  using assms by (simp_all add: mult_left_le_one_le)

lemma weighted_mean_unit:
  fixes f1 f2 f3 f4 f5 f6 w1 w2 w3 w4 w5 w6 :: real
  assumes f: "0 \<le> f1" "f1 \<le> 1" "0 \<le> f2" "f2 \<le> 1" "0 \<le> f3" "f3 \<le> 1"
      "0 \<le> f4" "f4 \<le> 1" "0 \<le> f5" "f5 \<le> 1" "0 \<le> f6" "f6 \<le> 1"
    and w: "0 \<le> w1" "0 \<le> w2" "0 \<le> w3" "0 \<le> w4" "0 \<le> w5" "0 \<le> w6"
    and s: "0 < w1 + w2 + w3 + w4 + w5 + w6"
  shows "0 \<le> f1 * (w1 / (w1 + w2 + w3 + w4 + w5 + w6)) + f2 * (w2 / (w1 + w2 + w3 + w4 + w5 + w6))
           + f3 * (w3 / (w1 + w2 + w3 + w4 + w5 + w6)) + f4 * (w4 / (w1 + w2 + w3 + w4 + w5 + w6))
           + f5 * (w5 / (w1 + w2 + w3 + w4 + w5 + w6)) + f6 * (w6 / (w1 + w2 + w3 + w4 + w5 + w6))"
    and "f1 * (w1 / (w1 + w2 + w3 + w4 + w5 + w6)) + f2 * (w2 / (w1 + w2 + w3 + w4 + w5 + w6))
           + f3 * (w3 / (w1 + w2 + w3 + w4 + w5 + w6)) + f4 * (w4 / (w1 + w2 + w3 + w4 + w5 + w6))
           + f5 * (w5 / (w1 + w2 + w3 + w4 + w5 + w6)) + f6 * (w6 / (w1 + w2 + w3 + w4 + w5 + w6))
         \<le> 1"
proof -
  define S where "S = w1 + w2 + w3 + w4 + w5 + w6"
  define x1 x2 x3 x4 x5 x6 where
    x: "x1 = w1 / S" "x2 = w2 / S" "x3 = w3 / S" "x4 = w4 / S" "x5 = w5 / S" "x6 = w6 / S"
  from s have sp: "0 < S" by (simp only: S_def)
  have n: "0 \<le> x1" "0 \<le> x2" "0 \<le> x3" "0 \<le> x4" "0 \<le> x5" "0 \<le> x6"
    unfolding x using w sp by (simp_all only: divide_nonneg_pos)
  have "x1 + x2 + x3 + x4 + x5 + x6 = (w1 + w2 + w3 + w4 + w5 + w6) / S"
    unfolding x by (simp only: add_divide_distrib)
  also have "\<dots> = 1" using sp by (simp add: S_def)
  finally have one: "x1 + x2 + x3 + x4 + x5 + x6 = 1" .
  have lo: "0 \<le> f1 * x1" "0 \<le> f2 * x2" "0 \<le> f3 * x3" "0 \<le> f4 * x4" "0 \<le> f5 * x5"
    "0 \<le> f6 * x6"
    using f n by (simp_all only: unit_share(1))
  have hi: "f1 * x1 \<le> x1" "f2 * x2 \<le> x2" "f3 * x3 \<le> x3" "f4 * x4 \<le> x4" "f5 * x5 \<le> x5"
    "f6 * x6 \<le> x6"
    using f n by (simp_all only: unit_share(2))
  have a: "0 \<le> f1 * x1 + f2 * x2 + f3 * x3 + f4 * x4 + f5 * x5 + f6 * x6"
    using lo by linarith
  have b: "f1 * x1 + f2 * x2 + f3 * x3 + f4 * x4 + f5 * x5 + f6 * x6 \<le> 1"
    using hi one by linarith
  from a show "0 \<le> f1 * (w1 / (w1 + w2 + w3 + w4 + w5 + w6)) + f2 * (w2 / (w1 + w2 + w3 + w4 + w5 + w6))
           + f3 * (w3 / (w1 + w2 + w3 + w4 + w5 + w6)) + f4 * (w4 / (w1 + w2 + w3 + w4 + w5 + w6))
           + f5 * (w5 / (w1 + w2 + w3 + w4 + w5 + w6)) + f6 * (w6 / (w1 + w2 + w3 + w4 + w5 + w6))"
    unfolding x S_def .
  from b show "f1 * (w1 / (w1 + w2 + w3 + w4 + w5 + w6)) + f2 * (w2 / (w1 + w2 + w3 + w4 + w5 + w6))
           + f3 * (w3 / (w1 + w2 + w3 + w4 + w5 + w6)) + f4 * (w4 / (w1 + w2 + w3 + w4 + w5 + w6))
           + f5 * (w5 / (w1 + w2 + w3 + w4 + w5 + w6)) + f6 * (w6 / (w1 + w2 + w3 + w4 + w5 + w6))
         \<le> 1"
    unfolding x S_def .
qed

lemma inUnit_Finite: "inUnit x \<Longrightarrow> \<exists>r. x = Finite r \<and> 0 \<le> r \<and> r \<le> 1"
  by (cases x) simp_all

text \<open>
  With factors in [0,1] and finite non-negative weights of positive sum, the weighted sum
  itself lies in [0,1] in exact arithmetic: the final clamp changes nothing there.
\<close>

lemma baseScore_in_unit_interval:
  assumes "inUnit (mentionPresence b)" and "inUnit (mentionContext b)"
    and "inUnit (mentionPosition b)" and "inUnit (descriptionDetail b)"
    and "inUnit (answerRelevance b)" and "inUnit (serviceMatch b)"
    and "wMentionPresence w = Finite w1" and "wMentionContext w = Finite w2"
    and "wMentionPosition w = Finite w3" and "wDescriptionDetail w = Finite w4"
    and "wAnswerRelevance w = Finite w5" and "wServiceMatch w = Finite w6"
    and "0 \<le> w1" "0 \<le> w2" "0 \<le> w3" "0 \<le> w4" "0 \<le> w5" "0 \<le> w6"
    and "0 < w1 + w2 + w3 + w4 + w5 + w6"
  shows "\<exists>r. baseScore b (normalizeWeights w) = Finite r \<and> 0 \<le> r \<and> r \<le> 1"
proof -
  from assms(1-6) obtain f1 f2 f3 f4 f5 f6 where
    fs: "mentionPresence b = Finite f1" "mentionContext b = Finite f2"
      "mentionPosition b = Finite f3" "descriptionDetail b = Finite f4"
      "answerRelevance b = Finite f5" "serviceMatch b = Finite f6"
    and fb: "0 \<le> f1" "f1 \<le> 1" "0 \<le> f2" "f2 \<le> 1" "0 \<le> f3" "f3 \<le> 1"
      "0 \<le> f4" "f4 \<le> 1" "0 \<le> f5" "f5 \<le> 1" "0 \<le> f6" "f6 \<le> 1"
    using inUnit_Finite by meson
  let ?S = "w1 + w2 + w3 + w4 + w5 + w6"
  have ws: "weightSum w = Finite ?S" by (simp add: weightSum_def assms(7-12))
  from assms(19) have nz: "?S \<noteq> 0" by simp
  have "baseScore b (normalizeWeights w)
          = Finite (f1 * (w1 / ?S) + f2 * (w2 / ?S) + f3 * (w3 / ?S) + f4 * (w4 / ?S)
                    + f5 * (w5 / ?S) + f6 * (w6 / ?S))"
    using nz by (simp add: baseScore_def normalizeWeights_def ws fs assms(7-12) Let_def)
  moreover note weighted_mean_unit [OF fb assms(13-19)]
  ultimately show ?thesis by blast
qed

section \<open>Properties of the question validator\<close>

lemma validateLoop_eq:
  "validateLoop i qs cfg vq errs =
     (vq @ map (normalizeQuestion \<circ> snd)
             (filter (\<lambda>(j, q). validateSingleQuestion q j cfg = []) (enumerate i qs)),
      errs @ concat (map (\<lambda>(j, q). validateSingleQuestion q j cfg) (enumerate i qs)))"
  by (induction qs arbitrary: i vq errs) (simp_all add: Let_def)

lemma validateSingleQuestion_passing:
  assumes "validateSingleQuestion q i cfg = []"
  shows "\<exists>ps t n l. q = JObj ps \<and> getProp ps ''text'' = Some (JStr t)
           \<and> getProp ps ''intent'' = Some (JStr n) \<and> getProp ps ''language'' = Some (JStr l)
           \<and> normalizeQuestion q
               = \<lparr> qtext = trim t, intent = n, language = trim (toLowerCase l) \<rparr>"
  using assms
  by (auto simp: validateSingleQuestion_def Let_def textErrors_def intentErrors_def
      languageErrors_def normalizeQuestion_def strProp_def
      split: json.splits option.splits if_splits)

text \<open>
  C5. For an array of candidates, the errors of the result are the errors of the
  candidates, each at its index; \<open>valid\<close> holds exactly when there are none; the accepted
  list is the list of the candidates that produced no error, in order, each normalised;
  and a candidate that produced no error is an object with three string fields, whose
  normal form has the text trimmed and the language lowercased and trimmed.
\<close>

theorem validateQuestions_valid_iff_no_errors:
  "errors (validateQuestions (JArr qs) cfg)
     = concat (map (\<lambda>(j, q). validateSingleQuestion q j cfg) (enumerate 0 qs))
   \<and> valid (validateQuestions (JArr qs) cfg) = (errors (validateQuestions (JArr qs) cfg) = [])
   \<and> valid (validateQuestions (JArr qs) cfg)
       = (\<forall>(j, q) \<in> set (enumerate 0 qs). validateSingleQuestion q j cfg = [])
   \<and> accepted (validateQuestions (JArr qs) cfg)
       = map (normalizeQuestion \<circ> snd)
           (filter (\<lambda>(j, q). validateSingleQuestion q j cfg = []) (enumerate 0 qs))
   \<and> (\<forall>q j. validateSingleQuestion q j cfg = [] \<longrightarrow>
         (\<exists>ps t n l. q = JObj ps \<and> getProp ps ''text'' = Some (JStr t)
            \<and> getProp ps ''intent'' = Some (JStr n)
            \<and> getProp ps ''language'' = Some (JStr l)
            \<and> normalizeQuestion q
                = \<lparr> qtext = trim t, intent = n, language = trim (toLowerCase l) \<rparr>))"
proof -
  have e: "errors (validateQuestions (JArr qs) cfg)
     = concat (map (\<lambda>(j, q). validateSingleQuestion q j cfg) (enumerate 0 qs))"
    by (simp add: validateQuestions_def validateLoop_eq)
  have v: "valid (validateQuestions (JArr qs) cfg)
       = (\<forall>(j, q) \<in> set (enumerate 0 qs). validateSingleQuestion q j cfg = [])"
    by (auto simp: validateQuestions_def validateLoop_eq)
  have a: "accepted (validateQuestions (JArr qs) cfg)
       = map (normalizeQuestion \<circ> snd)
           (filter (\<lambda>(j, q). validateSingleQuestion q j cfg = []) (enumerate 0 qs))"
    by (simp add: validateQuestions_def validateLoop_eq)
  have ve: "valid (validateQuestions (JArr qs) cfg)
       = (errors (validateQuestions (JArr qs) cfg) = [])"
    by (simp add: validateQuestions_def validateLoop_eq)
  from e ve v a validateSingleQuestion_passing show ?thesis by blast
qed

lemmas validator_eval =
  validateQuestions_def validateSingleQuestion_def Let_def textErrors_def intentErrors_def
  languageErrors_def normalizeQuestion_def strProp_def emptyConfig_def getProp_def trim_def
  isWhiteSpace_def toLowerCase_def toLowerChar_def VALID_INTENTS_def twoLowerLetters_def
  isLowerLetter_def show_int_def digit_char_def

theorem validateQuestions_valid_iff_no_errors_witness:
  "valid (validateQuestions (JArr
       [JObj [(''text'', JStr ''  Which firms offer backup?  ''), (''intent'', JStr ''pricing''),
              (''language'', JStr '' EN '')],
        JObj [(''text'', JStr ''short''), (''intent'', JStr ''pricing''),
              (''language'', JStr ''en'')]]) emptyConfig) = False
   \<and> accepted (validateQuestions (JArr
       [JObj [(''text'', JStr ''  Which firms offer backup?  ''), (''intent'', JStr ''pricing''),
              (''language'', JStr '' EN '')],
        JObj [(''text'', JStr ''short''), (''intent'', JStr ''pricing''),
              (''language'', JStr ''en'')]]) emptyConfig)
      = [\<lparr> qtext = ''Which firms offer backup?'', intent = ''pricing'', language = ''en'' \<rparr>]"
  using validateQuestions_valid_iff_no_errors
    [of "[JObj [(''text'', JStr ''  Which firms offer backup?  ''), (''intent'', JStr ''pricing''),
              (''language'', JStr '' EN '')],
        JObj [(''text'', JStr ''short''), (''intent'', JStr ''pricing''),
              (''language'', JStr ''en'')]]" emptyConfig]
  by (simp add: validator_eval)

section \<open>Properties of the heuristic score\<close>

















section \<open>Properties of the dashboard aggregator\<close>

lemma mkInsight_band:
  "length (comments (mkInsight e)) = 1
   \<and> (jge (avgScore (mkInsight e)) (Finite (75 / 100))
        \<longrightarrow> comments (mkInsight e) = [WELL_REPRESENTED])
   \<and> (jge (avgScore (mkInsight e)) (Finite (4 / 10))
        \<and> jless (avgScore (mkInsight e)) (Finite (75 / 100))
        \<longrightarrow> comments (mkInsight e) = [MODERATE_VISIBILITY])
   \<and> (jless (avgScore (mkInsight e)) (Finite (4 / 10))
        \<longrightarrow> comments (mkInsight e) = [ALMOST_INVISIBLE])"
proof -
  obtain svc arr where e: "e = (svc, arr)" by (cases e)
  define avg where "avg = jdiv (foldl jadd (Finite 0) arr) (Finite (real (length arr)))"
  have a: "avgScore (mkInsight e) = avg"
    by (simp add: mkInsight_def e avg_def Let_def)
  have c: "comments (mkInsight e) =
      (if jge avg (Finite (75 / 100)) then [WELL_REPRESENTED]
       else if jge avg (Finite (4 / 10)) then [MODERATE_VISIBILITY]
       else [ALMOST_INVISIBLE])"
    by (simp add: mkInsight_def e avg_def Let_def)
  show ?thesis unfolding a c
    by (cases avg) (auto simp: jge_def)
qed

text \<open>
  C8. Every insight of the aggregator carries exactly one comment, chosen by its average
  score: at least 0.75 the comment on good representation, at least 0.4 and below 0.75
  the comment on moderate visibility, below 0.4 the comment on near invisibility. Two
  scores 0.9 and 0.5 for the service "backup" give the average 0.7 and the comment on
  moderate visibility.
\<close>

theorem dashboardInsights_banding:
  "(dashboardInsights prs = Inr ins \<and> i \<in> set ins \<longrightarrow>
      length (comments i) = 1
      \<and> (jge (avgScore i) (Finite (75 / 100)) \<longrightarrow> comments i = [WELL_REPRESENTED])
      \<and> (jge (avgScore i) (Finite (4 / 10)) \<and> jless (avgScore i) (Finite (75 / 100))
           \<longrightarrow> comments i = [MODERATE_VISIBILITY])
      \<and> (jless (avgScore i) (Finite (4 / 10)) \<longrightarrow> comments i = [ALMOST_INVISIBLE]))
   \<and> dashboardInsights
        [\<lparr> provider = openai, answers = [],
           scores = [\<lparr> scoreProvider = openai, service = ''backup'', score = Finite (9 / 10),
                       scoreRationale = r1 \<rparr>] \<rparr>,
         \<lparr> provider = gemini, answers = [],
           scores = [\<lparr> scoreProvider = gemini, service = ''backup'', score = Finite (5 / 10),
                       scoreRationale = r2 \<rparr>] \<rparr>]
       = Inr [\<lparr> insightService = ''backup'', avgScore = Finite (7 / 10),
                comments = [MODERATE_VISIBILITY] \<rparr>]"
proof (intro conjI impI)
  assume h: "dashboardInsights prs = Inr ins \<and> i \<in> set ins"
  then obtain m where "ins = map mkInsight (objectEntries m)"
    by (auto simp: dashboardInsights_def split: sum.splits)
  with h obtain e where i: "i = mkInsight e" by auto
  show "length (comments i) = 1" using mkInsight_band [of e] i by simp
  { assume "jge (avgScore i) (Finite (75 / 100))"
    then show "comments i = [WELL_REPRESENTED]" using mkInsight_band [of e] i by simp }
  { assume "jge (avgScore i) (Finite (4 / 10)) \<and> jless (avgScore i) (Finite (75 / 100))"
    then show "comments i = [MODERATE_VISIBILITY]" using mkInsight_band [of e] i by simp }
  { assume "jless (avgScore i) (Finite (4 / 10))"
    then show "comments i = [ALMOST_INVISIBLE]" using mkInsight_band [of e] i by simp }
next
  show "dashboardInsights
        [\<lparr> provider = openai, answers = [],
           scores = [\<lparr> scoreProvider = openai, service = ''backup'', score = Finite (9 / 10),
                       scoreRationale = r1 \<rparr>] \<rparr>,
         \<lparr> provider = gemini, answers = [],
           scores = [\<lparr> scoreProvider = gemini, service = ''backup'', score = Finite (5 / 10),
                       scoreRationale = r2 \<rparr>] \<rparr>]
       = Inr [\<lparr> insightService = ''backup'', avgScore = Finite (7 / 10),
                comments = [MODERATE_VISIBILITY] \<rparr>]"
    by (simp add: dashboardInsights_def groupScores_def pushScore_def objectPrototypeKeys_def
        objectEntries_def isArrayIndex_def mkInsight_def jge_def Let_def)
qed

theorem dashboardInsights_banding_witness:
  "dashboardInsights
        [\<lparr> provider = openai, answers = [],
           scores = [\<lparr> scoreProvider = openai, service = ''backup'', score = Finite (2 / 10),
                       scoreRationale = [] \<rparr>] \<rparr>] =
     Inr [\<lparr> insightService = ''backup'', avgScore = Finite (2 / 10),
                comments = [ALMOST_INVISIBLE] \<rparr>]
   \<and> \<lparr> insightService = ''backup'', avgScore = Finite (2 / 10),
                comments = [ALMOST_INVISIBLE] \<rparr> \<in> set [\<lparr> insightService = ''backup'', avgScore = Finite (2 / 10),
                comments = [ALMOST_INVISIBLE] \<rparr>]
   \<and> jless (avgScore \<lparr> insightService = ''backup'', avgScore = Finite (2 / 10),
                comments = [ALMOST_INVISIBLE] \<rparr>) (Finite (4 / 10))
   \<and> comments \<lparr> insightService = ''backup'', avgScore = Finite (2 / 10),
                comments = [ALMOST_INVISIBLE] \<rparr> = [ALMOST_INVISIBLE]"
proof -
  have d: "dashboardInsights
        [\<lparr> provider = openai, answers = [],
           scores = [\<lparr> scoreProvider = openai, service = ''backup'', score = Finite (2 / 10),
                       scoreRationale = [] \<rparr>] \<rparr>] =
     Inr [\<lparr> insightService = ''backup'', avgScore = Finite (2 / 10),
                comments = [ALMOST_INVISIBLE] \<rparr>]"
    by (simp add: dashboardInsights_def groupScores_def pushScore_def objectPrototypeKeys_def
        objectEntries_def isArrayIndex_def mkInsight_def jge_def Let_def)
  show ?thesis
    using d dashboardInsights_banding
      [of "[\<lparr> provider = openai, answers = [],
           scores = [\<lparr> scoreProvider = openai, service = ''backup'', score = Finite (2 / 10),
                       scoreRationale = [] \<rparr>] \<rparr>]"
        "[\<lparr> insightService = ''backup'', avgScore = Finite (2 / 10),
                comments = [ALMOST_INVISIBLE] \<rparr>]"
        "\<lparr> insightService = ''backup'', avgScore = Finite (2 / 10),
                comments = [ALMOST_INVISIBLE] \<rparr>"]
    by simp
qed

text \<open>
  C2. When the enrichment fails or yields no bullet, the description should be the
  "reinforce" string for an average score of at least 0.75 and the "enhance" string
  otherwise. At an insight of average 0.9 a call that throws gives the "reinforce"
  string, but a call that returns the empty text gives the "enhance" string, also in
  the recommendations of the whole aggregator.
\<close>

theorem buildRecommendation_empty_result_ignores_score:
  "recDescription (buildRecommendation company
       \<lparr> insightService = ''backup'', avgScore = Finite (9 / 10),
         comments = [WELL_REPRESENTED] \<rparr> (Inr [])) = ENHANCE
   \<and> jge (Finite (9 / 10)) (Finite (75 / 100))
   \<and> ENHANCE \<noteq> REINFORCE
   \<and> recDescription (buildRecommendation company
       \<lparr> insightService = ''backup'', avgScore = Finite (9 / 10),
         comments = [WELL_REPRESENTED] \<rparr> (Inl e)) = REINFORCE
   \<and> map recDescription (dashboardRecommendations company
       [\<lparr> insightService = ''backup'', avgScore = Finite (9 / 10),
          comments = [WELL_REPRESENTED] \<rparr>] (\<lambda>insight. Inr [])) = [ENHANCE]"
  by (simp add: dashboardRecommendations_def resolveRecommendation_def buildRecommendation_def
      bulletsOf_def trim_def jge_def ENHANCE_def REINFORCE_def)

lemma buildRecommendation_empty_bullets:
  "bulletsOf recText = [] \<Longrightarrow>
     recDescription (buildRecommendation company insight (Inr recText)) = ENHANCE"
  by (simp add: buildRecommendation_def)

lemma buildRecommendation_call_error:
  "recDescription (buildRecommendation company insight (Inl e)) =
     (if jge (avgScore insight) (Finite (75 / 100)) then REINFORCE else ENHANCE)"
  by (simp add: buildRecommendation_def)

section \<open>Properties of the two parsers\<close>

lemma isMockResponse_nonempty: "isMockResponse (trim r) \<Longrightarrow> r \<noteq> []"
  by (auto simp: isMockResponse_def startsWith_def trim_def)

lemma parseQuestionResponse_mock:
  "isMockResponse (trim r) \<Longrightarrow>
     parseQuestionResponse jsonParse r = parseFailure MOCK_RESPONSE_ERROR"
  using isMockResponse_nonempty [of r] by (simp add: parseQuestionResponse_def)

lemma parseScoringResponse_mock:
  "isMockResponse (trim r) \<Longrightarrow>
     parseScoringResponse jsonParse toNumber r = scoringFailure MOCK_RESPONSE_ERROR"
  using isMockResponse_nonempty [of r] by (simp add: parseScoringResponse_def)

text \<open>
  C6. On the text "[MOCK] some text", and on every text whose trimmed form starts with
  "[" and contains "MOCK]", both parsers fail with the message that the API key is not
  configured and a mock response was received. The result is the same for every
  \<open>JSON.parse\<close>: the text is not parsed.
\<close>

theorem mock_sentinel_detected:
  "parseQuestionResponse jsonParse ''[MOCK] some text''
     = \<lparr> success = False, questions = [],
         error = Some ''LLM API key not configured - received mock response'' \<rparr>
   \<and> parseScoringResponse jsonParse toNumber ''[MOCK] some text''
     = \<lparr> scoringSuccess = False, breakdown = None,
         scoringError = Some ''LLM API key not configured - received mock response'' \<rparr>
   \<and> (startsWith (trim r) ''['' \<and> includesStr (trim r) ''MOCK]'' \<longrightarrow>
        parseQuestionResponse jsonParse r
          = \<lparr> success = False, questions = [],
              error = Some ''LLM API key not configured - received mock response'' \<rparr>
        \<and> parseScoringResponse jsonParse toNumber r
          = \<lparr> scoringSuccess = False, breakdown = None,
              scoringError = Some ''LLM API key not configured - received mock response'' \<rparr>)"
proof -
  have m: "isMockResponse (trim ''[MOCK] some text'')"
    by (simp add: isMockResponse_def trim_def isWhiteSpace_def startsWith_def)
  show ?thesis
    using parseQuestionResponse_mock [OF m, of jsonParse]
      parseScoringResponse_mock [OF m, of jsonParse toNumber]
      parseQuestionResponse_mock [of r jsonParse]
      parseScoringResponse_mock [of r jsonParse toNumber]
    by (simp add: parseFailure_def scoringFailure_def MOCK_RESPONSE_ERROR_def isMockResponse_def)
qed

theorem mock_sentinel_detected_witness:
  "startsWith (trim ''  [OPENAI MOCK] You are a market research assistant. '') ''[''
   \<and> includesStr (trim ''  [OPENAI MOCK] You are a market research assistant. '') ''MOCK]''
   \<and> parseQuestionResponse (\<lambda>t. Inr (JArr []))
        ''  [OPENAI MOCK] You are a market research assistant. ''
       = \<lparr> success = False, questions = [],
           error = Some ''LLM API key not configured - received mock response'' \<rparr>
   \<and> parseScoringResponse (\<lambda>t. Inr (JArr [])) (\<lambda>v. NaN)
        ''  [OPENAI MOCK] You are a market research assistant. ''
       = \<lparr> scoringSuccess = False, breakdown = None,
           scoringError = Some ''LLM API key not configured - received mock response'' \<rparr>"
proof -
  have s: "startsWith (trim ''  [OPENAI MOCK] You are a market research assistant. '') ''[''"
    by (simp add: trim_def isWhiteSpace_def startsWith_def)
  have i: "includesStr (trim ''  [OPENAI MOCK] You are a market research assistant. '') ''MOCK]''"
    by (simp add: trim_def isWhiteSpace_def startsWith_def)
  show ?thesis
    using s i mock_sentinel_detected
      [of "\<lambda>t. Inr (JArr [])" "\<lambda>v. NaN"
        "''  [OPENAI MOCK] You are a market research assistant. ''"]
    by blast
qed

section \<open>Properties of the JSON model\<close>

subsection \<open>String literals\<close>

lemma controlEscapes_read_back: "list_all escapeReadsBack controlEscapes"
  by code_simp

lemma control_entry:
  assumes "map_of controlEscapes c = Some e"
  shows "escapeReadsBack (c, e)"
proof -
  from assms have "(c, e) \<in> set controlEscapes" by (rule map_of_SomeD)
  with controlEscapes_read_back show ?thesis by (simp add: list_all_iff)
qed

lemma hex4_short: "length h < 4 \<Longrightarrow> hex4 h = None"
proof -
  assume "length h < 4"
  then have "length (map hexDigit h) < 4" by simp
  then show ?thesis
    unfolding hex4_def
    by (cases "map hexDigit h" rule: list.exhaust)
      (auto split: list.splits option.splits)
qed

lemma lexString_quoteJSONChar:
  "lexString (quoteJSONChar c @ r) = map_option (\<lambda>(v, r'). (c # v, r')) (lexString r)"
proof (cases "map_of controlEscapes c")
  case (Some e)
  then have rb: "escapeReadsBack (c, e)" by (rule control_entry)
  have q: "quoteJSONChar c = CHR 0x5C # e" by (simp add: quoteJSONChar_def Some)
  show ?thesis
  proof (cases e)
    case Nil
    with rb show ?thesis by (simp add: escapeReadsBack_def)
  next
    case (Cons x h)
    show ?thesis
    proof (cases h)
      case Nil
      with rb Cons have "x \<noteq> CHR ''u''" and "map_of simpleEscapes x = Some c"
        by (simp_all add: escapeReadsBack_def)
      with q Cons Nil show ?thesis by simp
    next
      case (Cons y h')
      with rb \<open>e = x # h\<close> have x: "x = CHR ''u''" and l: "length h = 4"
        and d: "map_option encodeUnit (hex4 h) = Some [c]"
        by (simp_all add: escapeReadsBack_def)
      from d obtain n where n: "hex4 h = Some n" and en: "encodeUnit n = [c]" by auto
      from l have "take 4 (h @ r) = h" and "drop 4 (h @ r) = r" by simp_all
      with q \<open>e = x # h\<close> x n en show ?thesis
        by (simp add: map_option_case split: option.splits)
    qed
  qed
next
  case None
  then have nc: "c \<notin> set (map fst controlEscapes)"
    by (simp add: map_of_eq_None_iff)
  show ?thesis
  proof (cases "c = CHR 0x22 \<or> c = CHR 0x5C")
    case True
    then have "quoteJSONChar c = [CHR 0x5C, c]" by (simp add: quoteJSONChar_def None)
    with True show ?thesis by (auto simp: simpleEscapes_def)
  next
    case False
    then have "quoteJSONChar c = [c]" by (simp add: quoteJSONChar_def None)
    with False nc show ?thesis by simp
  qed
qed

lemma lexString_escaped:
  "lexString (concat (map quoteJSONChar s) @ CHR 0x22 # r) = Some (s, r)"
  by (induction s) (simp_all add: lexString_quoteJSONChar)

lemma lexString_char_prefix:
  assumes "e @ w = quoteJSONChar c" and "w \<noteq> []"
  shows "lexString e = None"
proof (cases "map_of controlEscapes c")
  case None
  show ?thesis
  proof (cases "c = CHR 0x22 \<or> c = CHR 0x5C")
    case True
    then have "quoteJSONChar c = [CHR 0x5C, c]" by (simp add: quoteJSONChar_def None)
    with assms have "e = [] \<or> e = [CHR 0x5C]"
      by (cases e; cases "tl e") (auto simp: append_eq_Cons_conv)
    then show ?thesis by auto
  next
    case False
    then have "quoteJSONChar c = [c]" by (simp add: quoteJSONChar_def None)
    with assms have "e = []" by (cases e) auto
    then show ?thesis by simp
  qed
next
  case (Some x)
  then have rb: "escapeReadsBack (c, x)" by (rule control_entry)
  have q: "quoteJSONChar c = CHR 0x5C # x" by (simp add: quoteJSONChar_def Some)
  show ?thesis
  proof (cases e)
    case Nil
    then show ?thesis by simp
  next
    case (Cons a e')
    with assms q have a: "a = CHR 0x5C" and e': "e' @ w = x" by simp_all
    show ?thesis
    proof (cases e')
      case Nil
      with Cons a show ?thesis by simp
    next
      case (Cons b e'')
      with e' obtain h where x: "x = b # h" and h: "e'' @ w = h" by auto
      from assms(2) h have lt: "length e'' < length h" by auto
      from rb x h assms(2) have "b = CHR ''u''" and "length h = 4"
        by (cases h; auto simp: escapeReadsBack_def)+
      with lt have "hex4 (take 4 e'') = None" by (simp add: hex4_short)
      with \<open>e = a # e'\<close> a Cons \<open>b = CHR ''u''\<close> show ?thesis by simp
    qed
  qed
qed

lemma lexString_prefix_none:
  "e @ u = concat (map quoteJSONChar s) \<Longrightarrow> lexString e = None"
proof (induction s arbitrary: e u)
  case Nil
  then show ?case by simp
next
  case (Cons c s)
  from Cons.prems have "e @ u = quoteJSONChar c @ concat (map quoteJSONChar s)" by simp
  then consider w where "e @ w = quoteJSONChar c" and "w \<noteq> []"
    | e' where "e = quoteJSONChar c @ e'" and "e' @ u = concat (map quoteJSONChar s)"
    by (auto simp: append_eq_append_conv2) (metis append.right_neutral)
  then show ?case
  proof cases
    case 1
    then show ?thesis by (rule lexString_char_prefix)
  next
    case 2
    with Cons.IH [of e' u] show ?thesis by (simp add: lexString_quoteJSONChar)
  qed
qed

subsection \<open>Tokens and values of a serialised array\<close>

lemma jsonTokens_tokenText:
  "isStructural t \<Longrightarrow> jsonTokens (tokenText t @ r) = map_option ((#) t) (jsonTokens r)"
  by (cases t)
    (simp_all add: jsonTokens.simps isJsonSpace_def punctuation_def quoteJSONString_def
      lexString_escaped)

lemma jsonTokens_render:
  "list_all isStructural ts \<Longrightarrow>
     jsonTokens (renderTokens ts @ r) = map_option ((@) ts) (jsonTokens r)"
proof (induction ts)
  case Nil
  show ?case by (simp add: renderTokens_def option.map_ident)
next
  case (Cons t ts)
  then have "jsonTokens (renderTokens ts @ r) = map_option ((@) ts) (jsonTokens r)" by simp
  moreover have "renderTokens (t # ts) @ r = tokenText t @ renderTokens ts @ r"
    by (simp add: renderTokens_def)
  ultimately show ?case
    using Cons.prems by (simp add: jsonTokens_tokenText option.map_comp comp_def)
qed

lemma render_questionTokens: "renderTokens (questionTokens q) = stringifyQuestion q"
  by (simp add: renderTokens_def questionTokens_def stringifyQuestion_def)

lemma render_separatedTokens:
  "renderTokens (separatedTokens qs) = join '','' (map stringifyQuestion qs)"
proof (induction qs rule: separatedTokens.induct)
  case (3 q q' qs)
  have "renderTokens (separatedTokens (q # q' # qs))
          = renderTokens (questionTokens q) @ '','' @ renderTokens (separatedTokens (q' # qs))"
    by (simp add: renderTokens_def)
  with 3 show ?case by (simp add: render_questionTokens)
qed (simp_all add: render_questionTokens, simp add: renderTokens_def)

lemma render_arrayTokens: "renderTokens (arrayTokens qs) = stringifyQuestions qs"
proof -
  have "renderTokens (arrayTokens qs) = ''['' @ renderTokens (separatedTokens qs) @ '']''"
    by (simp add: renderTokens_def arrayTokens_def)
  then show ?thesis by (simp add: render_separatedTokens stringifyQuestions_def)
qed

lemma structural_questionTokens: "list_all isStructural (questionTokens q)"
  by (simp add: questionTokens_def)

lemma structural_separatedTokens: "list_all isStructural (separatedTokens qs)"
  by (induction qs rule: separatedTokens.induct) (simp_all add: structural_questionTokens)

lemma structural_arrayTokens: "list_all isStructural (arrayTokens qs)"
  by (simp add: arrayTokens_def structural_separatedTokens)

lemma jsonTokens_stringifyQuestions: "jsonTokens (stringifyQuestions qs) = Some (arrayTokens qs)"
  using jsonTokens_render [OF structural_arrayTokens, of qs "[]"]
  by (simp add: render_arrayTokens jsonTokens.simps)

lemma jsonTokens_backtick: "jsonTokens (CHR 0x60 # s) = None"
  by (simp add: jsonTokens.simps isJsonSpace_def punctuation_def startsWith_def lexNumber_def
      lexInteger_def isDigit_def)

lemma jsonTokens_j: "jsonTokens (CHR ''j'' # s) = None"
  by (simp add: jsonTokens.simps isJsonSpace_def punctuation_def startsWith_def lexNumber_def
      lexInteger_def isDigit_def)

lemma JSON_parse_not_json:
  "c = CHR 0x60 \<or> c = CHR ''j'' \<Longrightarrow> JSON_parse (c # s) = None"
  by (auto simp: JSON_parse_def jsonTokens_backtick jsonTokens_j)

lemma jsonTokens_Nil: "jsonTokens [] = Some []"
  by (simp add: jsonTokens.simps)

lemma tokenText_cut:
  assumes "isStructural t" and "tokenText t = A @ c # B"
    and "isWhiteSpace c \<or> c = CHR 0x60"
  shows "jsonTokens A = None"
proof (cases t)
  case (TString s)
  with assms(2) have e: "CHR 0x22 # concat (map quoteJSONChar s) @ [CHR 0x22] = A @ c # B"
    by (simp add: quoteJSONString_def)
  from assms(3) have cq: "c \<noteq> CHR 0x22" by (auto simp: isWhiteSpace_def)
  with e obtain A' where A: "A = CHR 0x22 # A'"
    and e': "concat (map quoteJSONChar s) @ [CHR 0x22] = A' @ c # B"
    by (cases A) auto
  have "\<exists>u. A' @ u = concat (map quoteJSONChar s)"
  proof (cases B rule: rev_cases)
    case Nil
    with e' cq show ?thesis by simp
  next
    case (snoc B' b)
    with e' have "concat (map quoteJSONChar s) = A' @ c # B'" by simp
    then show ?thesis by metis
  qed
  then obtain u where "A' @ u = concat (map quoteJSONChar s)" ..
  then have "lexString A' = None" by (rule lexString_prefix_none)
  with A show ?thesis by (simp add: jsonTokens.simps isJsonSpace_def punctuation_def)
next
  case TLBrace
  with assms(2,3) show ?thesis by (cases A) (auto simp: isWhiteSpace_def jsonTokens.simps)
next
  case TRBrace
  with assms(2,3) show ?thesis by (cases A) (auto simp: isWhiteSpace_def jsonTokens.simps)
next
  case TLBracket
  with assms(2,3) show ?thesis by (cases A) (auto simp: isWhiteSpace_def jsonTokens.simps)
next
  case TRBracket
  with assms(2,3) show ?thesis by (cases A) (auto simp: isWhiteSpace_def jsonTokens.simps)
next
  case TColon
  with assms(2,3) show ?thesis by (cases A) (auto simp: isWhiteSpace_def jsonTokens.simps)
next
  case TComma
  with assms(2,3) show ?thesis by (cases A) (auto simp: isWhiteSpace_def jsonTokens.simps)
qed (use assms(1) in simp_all)

lemma renderTokens_cut:
  assumes "list_all isStructural ts" and "renderTokens ts = A @ c # B"
    and "isWhiteSpace c \<or> c = CHR 0x60"
  shows "jsonTokens A = None"
  using assms(1,2)
proof (induction ts arbitrary: A)
  case Nil
  then show ?case by (simp add: renderTokens_def)
next
  case (Cons t ts)
  from Cons.prems have st: "isStructural t" and sts: "list_all isStructural ts" by simp_all
  from Cons.prems have "tokenText t @ renderTokens ts = A @ c # B"
    by (simp add: renderTokens_def)
  then consider A' where "A = tokenText t @ A'" and "renderTokens ts = A' @ c # B"
    | B' where "tokenText t = A @ c # B'"
    by (auto simp: append_eq_append_conv2 append_eq_Cons_conv Cons_eq_append_conv)
  then show ?case
  proof cases
    case 1
    from Cons.IH [OF sts 1(2)] have "jsonTokens A' = None" .
    with 1(1) st show ?thesis by (simp add: jsonTokens_tokenText)
  next
    case 2
    show ?thesis by (rule tokenText_cut [OF st 2 assms(3)])
  qed
qed

lemma parseTokens_question:
  assumes "e = ExpValue \<or> e = ExpValueOrClose"
  shows "parseTokens e (InArray xs # st) (questionTokens q @ rest)
           = parseTokens ExpSeparator (InArray (xs @ [questionValue q]) # st) rest"
  using assms by (auto simp: questionTokens_def questionValue_def)

lemma parseTokens_separated:
  assumes "qs \<noteq> []" and "e = ExpValue \<or> e = ExpValueOrClose"
  shows "parseTokens e [InArray xs] (separatedTokens qs @ [TRBracket])
           = Some (JArr (xs @ map questionValue qs))"
  using assms
proof (induction qs arbitrary: xs e rule: separatedTokens.induct)
  case 1
  then show ?case by simp
next
  case (2 q)
  then show ?case by (simp add: parseTokens_question)
next
  case (3 q q' qs)
  have "parseTokens e [InArray xs] (separatedTokens (q # q' # qs) @ [TRBracket])
          = parseTokens ExpValue [InArray (xs @ [questionValue q])]
              (separatedTokens (q' # qs) @ [TRBracket])"
    using "3.prems"(2) by (simp add: parseTokens_question)
  also have "\<dots> = Some (JArr ((xs @ [questionValue q]) @ map questionValue (q' # qs)))"
    by (rule "3.IH") simp_all
  finally show ?case by simp
qed

lemma JSON_parse_stringifyQuestions:
  "JSON_parse (stringifyQuestions qs) = Some (JArr (map questionValue qs))"
proof (cases "qs = []")
  case True
  then show ?thesis
    by (simp add: JSON_parse_def jsonTokens_stringifyQuestions arrayTokens_def)
next
  case False
  then show ?thesis
    using parseTokens_separated [of qs ExpValueOrClose "[]"]
    by (simp add: JSON_parse_def jsonTokens_stringifyQuestions arrayTokens_def)
qed

lemma JSON_parse_cut:
  assumes "stringifyQuestions qs = A @ c # B" and "isWhiteSpace c \<or> c = CHR 0x60"
  shows "JSON_parse A = None"
proof -
  from assms(1) have "renderTokens (arrayTokens qs) = A @ c # B"
    by (simp add: render_arrayTokens)
  with structural_arrayTokens have "jsonTokens A = None"
    using assms(2) by (rule renderTokens_cut)
  then show ?thesis by (simp add: JSON_parse_def)
qed

section \<open>Properties of the regular expressions\<close>

lemma jsonBlockRegex_split:
  "jsonBlockRegex =
     map lit fence @ map litIgnoreCase ''json''
     @ [Star isWhiteSpace, GroupOpen, LazyStar anyChar] @ fenceClose"
  by (simp add: jsonBlockRegex_def fenceClose_def)

lemma codeBlockRegex_split:
  "codeBlockRegex = map lit fence @ [Star isWhiteSpace, GroupOpen, LazyStar anyChar] @ fenceClose"
  by (simp add: codeBlockRegex_def fenceClose_def)

lemma arrayRegex_split:
  "arrayRegex =
     [GroupOpen, lit (CHR ''[''), Star isWhiteSpace, lit (CHR ''{''), Star anyChar] @ arrayClose"
  by (simp add: arrayRegex_def arrayClose_def)

lemma anyChar_holds: "anyChar c"
  by (simp add: anyChar_def)

lemma fenceClose_at_end: "rxMatch fenceClose (CHR 0x0A # fence) = Some (True, [])"
  by (simp add: fenceClose_def fence_def lit_def isWhiteSpace_def consume_def)

lemma fenceClose_result: "rxMatch fenceClose s = Some st \<Longrightarrow> st = (True, [])"
  by (auto simp: fenceClose_def)

lemma fenceClose_none:
  "\<not> isWhiteSpace c \<Longrightarrow> c \<noteq> CHR 0x60 \<Longrightarrow> rxMatch fenceClose (c # s) = None"
  by (simp add: fenceClose_def fence_def lit_def)

lemma fenceClose_first:
  "rxMatch fenceClose (c # s) = Some st \<Longrightarrow> isWhiteSpace c \<or> c = CHR 0x60"
  using fenceClose_none [of c s] by fastforce

lemma foldr_consume: "foldr consume xs (True, ys) = (True, xs @ ys)"
  by (induction xs) (simp_all add: consume_def)

lemma lazy_least:
  assumes "k \<le> length s" and "rxMatch r (drop k s) = Some st"
    and "\<forall>j<k. rxMatch r (drop j s) = None"
  shows "rxMatch (LazyStar anyChar # r) s = Some (foldr consume (take k s) st)"
  using assms
proof (induction s arbitrary: k)
  case Nil
  then show ?case by simp
next
  case (Cons c cs)
  show ?case
  proof (cases k)
    case 0
    with Cons.prems show ?thesis by simp
  next
    case (Suc k')
    with Cons.prems have n0: "rxMatch r (c # cs) = None" by auto
    from Cons.prems Suc have "k' \<le> length cs" and "rxMatch r (drop k' cs) = Some st"
      and "\<forall>j<k'. rxMatch r (drop j cs) = None"
      by auto
    then have "rxMatch (LazyStar anyChar # r) cs = Some (foldr consume (take k' cs) st)"
      by (rule Cons.IH)
    with n0 Suc anyChar_holds [of c] show ?thesis by simp
  qed
qed

lemma lazy_capture:
  assumes "n \<le> length s" and "rxMatch fenceClose (drop n s) \<noteq> None"
  shows "\<exists>k\<le>n. rxMatch (LazyStar anyChar # fenceClose) s = Some (True, take k s)
           \<and> rxMatch fenceClose (drop k s) \<noteq> None
           \<and> (\<forall>j<k. rxMatch fenceClose (drop j s) = None)"
proof -
  define k where "k = (LEAST k. rxMatch fenceClose (drop k s) \<noteq> None)"
  have kn: "k \<le> n" unfolding k_def using assms(2) by (rule Least_le)
  have km: "rxMatch fenceClose (drop k s) \<noteq> None"
    unfolding k_def using assms(2) by (rule LeastI)
  have kl: "\<forall>j<k. rxMatch fenceClose (drop j s) = None"
    unfolding k_def using not_less_Least by blast
  from km obtain st where st: "rxMatch fenceClose (drop k s) = Some st" by auto
  then have "st = (True, [])" by (rule fenceClose_result)
  with st have "rxMatch fenceClose (drop k s) = Some (True, [])" by simp
  with kn assms(1) kl have "rxMatch (LazyStar anyChar # fenceClose) s
      = Some (foldr consume (take k s) (True, []))"
    by (intro lazy_least) auto
  with kn km kl show ?thesis by (auto simp: foldr_consume)
qed

lemma star_none:
  "rxMatch r s = None \<Longrightarrow> noLaterMatch r s \<Longrightarrow> rxMatch (Star p # r) s = None"
  by (induction s) auto

lemma star_last:
  assumes "rxMatch r b = Some st" and "noLaterMatch r b"
  shows "rxMatch (Star anyChar # r) (a @ b) = Some (foldr consume a st)"
proof (induction a)
  case Nil
  show ?case
  proof (cases b)
    case Nil
    with assms show ?thesis by simp
  next
    case (Cons c cs)
    with assms(2) have "rxMatch r cs = None" and "noLaterMatch r cs" by simp_all
    then have "rxMatch (Star anyChar # r) cs = None" by (rule star_none)
    with Cons assms(1) anyChar_holds [of c] show ?thesis by simp
  qed
next
  case (Cons c a)
  with anyChar_holds [of c] show ?case by simp
qed

lemma arrayClose_at_end:
  "rxMatch arrayClose (''}]'' @ CHR 0x0A # fence) = Some (True, ''}]'')"
  by (simp add: arrayClose_def fence_def lit_def isWhiteSpace_def consume_def)

lemma arrayClose_no_later: "noLaterMatch arrayClose (''}]'' @ CHR 0x0A # fence)"
  by (simp add: arrayClose_def fence_def lit_def)

lemma take_append_le: "k \<le> length xs \<Longrightarrow> take k (xs @ ys) = take k xs"
  by simp

lemma drop_append_nth:
  "k < length xs \<Longrightarrow> drop k (xs @ ys) = xs ! k # drop (Suc k) xs @ ys"
  by (simp add: Cons_nth_drop_Suc)

lemma arrayRegex_mismatch: "c \<noteq> CHR ''['' \<Longrightarrow> rxMatch arrayRegex (c # s) = None"
  by (simp add: arrayRegex_def lit_def)

lemma jsonBlock_search:
  assumes "\<not> isWhiteSpace c"
  shows "\<exists>k\<le>length (c # J). rxSearch jsonBlockRegex (fencedJson (c # J)) = Some (take k (c # J))
           \<and> (k < length (c # J) \<longrightarrow> isWhiteSpace ((c # J) ! k) \<or> (c # J) ! k = CHR 0x60)"
proof -
  let ?s = "(c # J) @ CHR 0x0A # fence"
  have "rxMatch fenceClose (drop (length (c # J)) ?s) \<noteq> None"
    using fenceClose_at_end by simp
  with lazy_capture [of "length (c # J)" ?s]
  obtain k where k: "k \<le> length (c # J)"
    and m: "rxMatch (LazyStar anyChar # fenceClose) ?s = Some (True, take k ?s)"
    and f: "rxMatch fenceClose (drop k ?s) \<noteq> None"
    by auto
  from k have t: "take k ?s = take k (c # J)" by (rule take_append_le)
  have "rxMatch jsonBlockRegex (fencedJson (c # J)) = Some (False, take k (c # J))"
    using m t assms
    by (simp add: jsonBlockRegex_split fencedJson_def fence_def lit_def litIgnoreCase_def
        toLowerChar_def isWhiteSpace_def consume_def)
  then have s: "rxSearch jsonBlockRegex (fencedJson (c # J)) = Some (take k (c # J))"
    by (simp add: fencedJson_def fence_def)
  have "isWhiteSpace ((c # J) ! k) \<or> (c # J) ! k = CHR 0x60" if lt: "k < length (c # J)"
  proof -
    from lt have "drop k ?s = (c # J) ! k # drop (Suc k) (c # J) @ CHR 0x0A # fence"
      by (rule drop_append_nth)
    with f obtain st where
      "rxMatch fenceClose ((c # J) ! k # drop (Suc k) (c # J) @ CHR 0x0A # fence) = Some st"
      by auto
    then show ?thesis by (rule fenceClose_first)
  qed
  with k s show ?thesis by blast
qed

lemma codeBlock_search:
  "\<exists>r. rxSearch codeBlockRegex (fencedJson J) = Some (CHR ''j'' # r)"
proof -
  let ?s = "''json'' @ CHR 0x0A # J @ CHR 0x0A # fence"
  have "rxMatch fenceClose (drop (length (''json'' @ CHR 0x0A # J)) ?s) \<noteq> None"
    using fenceClose_at_end by simp
  with lazy_capture [of "length (''json'' @ CHR 0x0A # J)" ?s]
  obtain k where m: "rxMatch (LazyStar anyChar # fenceClose) ?s = Some (True, take k ?s)"
    and f: "rxMatch fenceClose (drop k ?s) \<noteq> None"
    by auto
  have "k \<noteq> 0"
  proof
    assume "k = 0"
    with f have "rxMatch fenceClose ?s \<noteq> None" by simp
    moreover have "rxMatch fenceClose ?s = None"
      using fenceClose_none [of "CHR ''j''"] by (simp add: isWhiteSpace_def)
    ultimately show False by simp
  qed
  then obtain k' where "k = Suc k'" by (cases k) auto
  then have t: "take k ?s = CHR ''j'' # take k' (''son'' @ CHR 0x0A # J @ CHR 0x0A # fence)"
    by simp
  have "rxMatch codeBlockRegex (fencedJson J) = Some (False, take k ?s)"
    using m
    by (simp add: codeBlockRegex_split fencedJson_def fence_def lit_def isWhiteSpace_def
        consume_def)
  then have "rxSearch codeBlockRegex (fencedJson J) = Some (take k ?s)"
    by (simp add: fencedJson_def fence_def)
  with t show ?thesis by simp
qed

lemma array_search:
  "rxSearch arrayRegex (fencedJson (CHR ''['' # CHR ''{'' # M @ ''}]''))
     = Some (CHR ''['' # CHR ''{'' # M @ ''}]'')"
proof -
  have "rxMatch (Star anyChar # arrayClose) (M @ (''}]'' @ CHR 0x0A # fence))
          = Some (foldr consume M (True, ''}]''))"
    using arrayClose_at_end arrayClose_no_later by (rule star_last)
  then have m: "rxMatch (Star anyChar # arrayClose) (M @ CHR ''}'' # CHR '']'' # CHR 0x0A # fence)
          = Some (True, M @ ''}]'')"
    by (simp add: foldr_consume)
  have "rxMatch arrayRegex (CHR ''['' # CHR ''{'' # M @ CHR ''}'' # CHR '']'' # CHR 0x0A # fence)
          = Some (False, CHR ''['' # CHR ''{'' # M @ ''}]'')"
    using m by (simp add: arrayRegex_split lit_def isWhiteSpace_def consume_def)
  then show ?thesis
    by (simp add: fencedJson_def fence_def arrayRegex_mismatch)
qed

section \<open>The round trip through a fenced block\<close>

lemma rev_span:
  "xs = rev (dropWhile P (rev xs)) @ rev (takeWhile P (rev xs))"
  by (metis rev_append rev_rev_ident takeWhile_dropWhile_id)

lemma trim_split:
  assumes "xs \<noteq> []" and "\<not> isWhiteSpace (hd xs)"
  shows "\<exists>w. xs = trim xs @ w \<and> (w = [] \<or> isWhiteSpace (hd w))
           \<and> trim xs \<noteq> [] \<and> hd (trim xs) = hd xs"
proof -
  let ?t = "takeWhile isWhiteSpace (rev xs)"
  let ?d = "dropWhile isWhiteSpace (rev xs)"
  from assms have "dropWhile isWhiteSpace xs = xs" by (cases xs) simp_all
  then have tr: "trim xs = rev ?d" by (simp add: trim_def)
  have sp: "xs = rev ?d @ rev ?t" by (rule rev_span)
  have w: "rev ?t = [] \<or> isWhiteSpace (hd (rev ?t))"
  proof (cases "?t = []")
    case True
    then show ?thesis by simp
  next
    case False
    then have "last ?t \<in> set ?t" by (rule last_in_set)
    then have "isWhiteSpace (last ?t)" by (rule set_takeWhileD [THEN conjunct2])
    with False show ?thesis by (simp add: hd_rev)
  qed
  have dn: "?d \<noteq> []"
  proof
    assume "?d = []"
    then have "\<forall>x\<in>set (rev xs). isWhiteSpace x" by (simp add: dropWhile_eq_Nil_conv)
    moreover from assms(1) have "hd xs \<in> set (rev xs)" by simp
    ultimately show False using assms(2) by blast
  qed
  then have tn: "trim xs \<noteq> []" using tr by simp
  from sp tr have "xs = trim xs @ rev ?t" by simp
  moreover from this tn have "hd (trim xs) = hd xs" by (metis hd_append2)
  ultimately show ?thesis using w tn by blast
qed

lemma trim_identity:
  assumes "xs \<noteq> []" and "\<not> isWhiteSpace (hd xs)" and "\<not> isWhiteSpace (last xs)"
  shows "trim xs = xs"
proof -
  from assms(1,2) have "dropWhile isWhiteSpace xs = xs" by (cases xs) simp_all
  moreover have "dropWhile isWhiteSpace (rev xs) = rev xs"
  proof (cases "rev xs")
    case Nil
    then show ?thesis by simp
  next
    case (Cons a ys)
    from assms(1) have "hd (rev xs) = last xs" by (simp add: hd_rev)
    with Cons assms(3) have "\<not> isWhiteSpace a" by simp
    with Cons show ?thesis by simp
  qed
  ultimately show ?thesis by (simp add: trim_def)
qed

lemma stringifyQuestions_shape:
  "\<exists>J. stringifyQuestions qs = CHR ''['' # J \<and> last (CHR ''['' # J) = CHR '']''"
  by (simp add: stringifyQuestions_def)

lemma join_questions_shape:
  "qs \<noteq> [] \<Longrightarrow> \<exists>M. join '','' (map stringifyQuestion qs) = CHR ''{'' # M @ ''}''"
proof (induction qs rule: separatedTokens.induct)
  case 1
  then show ?case by simp
next
  case (2 q)
  show ?case by (simp add: stringifyQuestion_def)
next
  case (3 q q' qs)
  then obtain M where "join '','' (map stringifyQuestion (q' # qs)) = CHR ''{'' # M @ ''}''"
    by auto
  then have "join '','' (map stringifyQuestion (q # q' # qs))
      = CHR ''{'' # (tl (stringifyQuestion q) @ '','' @ CHR ''{'' # M) @ ''}''"
    by (simp add: stringifyQuestion_def)
  then show ?case by blast
qed

lemma stringifyQuestions_nonempty_shape:
  "qs \<noteq> [] \<Longrightarrow> \<exists>M. stringifyQuestions qs = CHR ''['' # CHR ''{'' # M @ ''}]''"
  using join_questions_shape [of qs] by (auto simp: stringifyQuestions_def)

lemma stringifyQuestions_empty_chars:
  assumes "stringifyQuestions [] = A @ c # B"
  shows "\<not> isWhiteSpace c \<and> c \<noteq> CHR 0x60"
proof -
  from assms have "''[]'' = A @ c # B" by (simp add: stringifyQuestions_def)
  then have "c \<in> set ''[]''" by (metis in_set_conv_decomp)
  then show ?thesis by (auto simp: isWhiteSpace_def)
qed

lemma parsedArray_stringifyQuestions:
  "parsedArray (jsonParser msg) (stringifyQuestions qs) = Some (map questionValue qs)"
  by (simp add: parsedArray_def jsonParser_def JSON_parse_stringifyQuestions)

lemma parsedArray_cut:
  assumes "stringifyQuestions qs = A @ c # B" and "isWhiteSpace c \<or> c = CHR 0x60"
  shows "parsedArray (jsonParser msg) A = None"
  using JSON_parse_cut [OF assms] by (simp add: parsedArray_def jsonParser_def)

lemma parsedArray_not_json:
  "c = CHR 0x60 \<or> c = CHR ''j'' \<Longrightarrow> parsedArray (jsonParser msg) (c # s) = None"
  using JSON_parse_not_json [of c s] by (simp add: parsedArray_def jsonParser_def)

lemma fenced_text_trimmed: "trim (fencedJson J) = fencedJson J"
proof -
  have "fencedJson J = CHR 0x60 # (CHR 0x60 # CHR 0x60 # ''json'' @ [CHR 0x0A] @ J @ [CHR 0x0A] @ fence)"
    by (simp add: fencedJson_def fence_def)
  moreover have "last (fencedJson J) = CHR 0x60"
    by (simp add: fencedJson_def fence_def)
  ultimately show ?thesis
    by (intro trim_identity) (simp_all add: isWhiteSpace_def)
qed

lemma fenced_text_head: "\<exists>r. fencedJson J = CHR 0x60 # r"
  by (simp add: fencedJson_def fence_def)

lemma strategy_json_block:
  "fencedArray (jsonParser msg) jsonBlockRegex (fencedJson (stringifyQuestions qs))
     = Some (map questionValue qs)
   \<or> (fencedArray (jsonParser msg) jsonBlockRegex (fencedJson (stringifyQuestions qs)) = None
      \<and> qs \<noteq> [])"
proof -
  obtain J where J: "stringifyQuestions qs = CHR ''['' # J"
    and l: "last (CHR ''['' # J) = CHR '']''"
    using stringifyQuestions_shape by blast
  have nw: "\<not> isWhiteSpace (CHR ''['')" by (simp add: isWhiteSpace_def)
  from jsonBlock_search [OF nw, of J] obtain k where k: "k \<le> length (CHR ''['' # J)"
    and s: "rxSearch jsonBlockRegex (fencedJson (CHR ''['' # J)) = Some (take k (CHR ''['' # J))"
    and c: "k < length (CHR ''['' # J) \<longrightarrow>
              isWhiteSpace ((CHR ''['' # J) ! k) \<or> (CHR ''['' # J) ! k = CHR 0x60"
    by blast
  show ?thesis
  proof (cases "k = length (CHR ''['' # J)")
    case True
    have "trim (CHR ''['' # J) = CHR ''['' # J"
      using nw l by (intro trim_identity) (simp_all add: isWhiteSpace_def)
    with True s J show ?thesis
      using parsedArray_stringifyQuestions [of msg qs] by (simp add: fencedArray_def)
  next
    case False
    with k have lt: "k < length (CHR ''['' # J)" by simp
    define c where "c = (CHR ''['' # J) ! k"
    define B where "B = drop (Suc k) (CHR ''['' # J)"
    define cap where "cap = take k (CHR ''['' # J)"
    from lt c have ck: "isWhiteSpace c \<or> c = CHR 0x60" by (simp add: c_def)
    from lt have "CHR ''['' # J = cap @ c # B"
      unfolding c_def B_def cap_def by (rule id_take_nth_drop)
    with J have d: "stringifyQuestions qs = cap @ c # B" by simp
    from s J have sc: "rxSearch jsonBlockRegex (fencedJson (stringifyQuestions qs)) = Some cap"
      by (simp add: cap_def)
    have ne: "qs \<noteq> []"
    proof
      assume "qs = []"
      with d have "stringifyQuestions [] = cap @ c # B" by simp
      then have "\<not> isWhiteSpace c \<and> c \<noteq> CHR 0x60"
        by (rule stringifyQuestions_empty_chars)
      with ck show False by simp
    qed
    have "fencedArray (jsonParser msg) jsonBlockRegex (fencedJson (stringifyQuestions qs)) = None"
    proof (cases "cap = []")
      case True
      with sc show ?thesis by (simp add: fencedArray_def)
    next
      case False
      have "hd cap = CHR ''[''"
        using False by (cases k) (simp_all add: cap_def)
      with False nw trim_split [of cap] obtain w where
        w: "cap = trim cap @ w" and wh: "w = [] \<or> isWhiteSpace (hd w)"
        by auto
      have "parsedArray (jsonParser msg) (trim cap) = None"
      proof (cases w)
        case Nil
        with w have "trim cap = cap" by simp
        moreover have "parsedArray (jsonParser msg) cap = None"
          using d ck by (rule parsedArray_cut)
        ultimately show ?thesis by simp
      next
        case (Cons x w')
        with wh have x: "isWhiteSpace x" by simp
        from d w Cons have "stringifyQuestions qs = trim cap @ x # (w' @ c # B)"
          by (metis append.assoc append_Cons)
        then show ?thesis using x by (intro parsedArray_cut) auto
      qed
      with sc False show ?thesis by (simp add: fencedArray_def)
    qed
    with ne show ?thesis by simp
  qed
qed

lemma strategy_code_block:
  "fencedArray (jsonParser msg) codeBlockRegex (fencedJson J) = None"
proof -
  obtain r where r: "rxSearch codeBlockRegex (fencedJson J) = Some (CHR ''j'' # r)"
    using codeBlock_search by blast
  have "\<not> isWhiteSpace (CHR ''j'')" by (simp add: isWhiteSpace_def)
  with trim_split [of "CHR ''j'' # r"] have "trim (CHR ''j'' # r) \<noteq> []"
    and "hd (trim (CHR ''j'' # r)) = CHR ''j''"
    by auto
  then obtain r' where "trim (CHR ''j'' # r) = CHR ''j'' # r'"
    by (cases "trim (CHR ''j'' # r)") auto
  with r show ?thesis by (simp add: fencedArray_def parsedArray_not_json)
qed

lemma strategy_loose_array:
  assumes "qs \<noteq> []"
  shows "looseArray (jsonParser msg) (fencedJson (stringifyQuestions qs))
           = Some (map questionValue qs)"
proof -
  from assms obtain M where M: "stringifyQuestions qs = CHR ''['' # CHR ''{'' # M @ ''}]''"
    using stringifyQuestions_nonempty_shape by blast
  have "rxSearch arrayRegex (fencedJson (stringifyQuestions qs)) = Some (stringifyQuestions qs)"
    unfolding M by (rule array_search)
  then show ?thesis by (simp add: looseArray_def parsedArray_stringifyQuestions)
qed

text \<open>
  C7. For every array of raw questions: the array is serialised to JSON text, the text is
  put in a fenced block tagged \<open>json\<close>, and the question parser, with the JSON parser of
  the model for \<open>JSON.parse\<close>, succeeds on the block and returns the questions of the
  array, whatever characters their strings hold.
\<close>

theorem fenced_round_trip:
  "parseQuestionResponse (jsonParser msg) (fencedJson (stringifyQuestions qs))
     = \<lparr> success = True, questions = map questionValue qs, error = None \<rparr>"
proof -
  let ?T = "fencedJson (stringifyQuestions qs)"
  obtain r where h: "?T = CHR 0x60 # r" using fenced_text_head by blast
  then have ne: "?T \<noteq> []" by simp
  have tr: "trim ?T = ?T" by (rule fenced_text_trimmed)
  have nm: "\<not> isMockResponse ?T" by (simp add: h isMockResponse_def startsWith_def)
  have s1: "parsedArray (jsonParser msg) ?T = None"
    by (simp add: h parsedArray_not_json)
  have s3: "fencedArray (jsonParser msg) codeBlockRegex ?T = None"
    by (rule strategy_code_block)
  from strategy_json_block [of msg qs] show ?thesis
  proof
    assume "fencedArray (jsonParser msg) jsonBlockRegex ?T = Some (map questionValue qs)"
    with ne tr nm s1 show ?thesis
      by (simp add: parseQuestionResponse_def parseSuccess_def)
  next
    assume a: "fencedArray (jsonParser msg) jsonBlockRegex ?T = None \<and> qs \<noteq> []"
    then have "looseArray (jsonParser msg) ?T = Some (map questionValue qs)"
      by (intro strategy_loose_array) simp
    with a ne tr nm s1 s3 show ?thesis
      by (simp add: parseQuestionResponse_def parseSuccess_def)
  qed
qed

section \<open>The mock marker in well-formed input\<close>

text \<open>
  C10. When the trimmed text starts with "[" and contains "MOCK]", both parsers fail
  with the mock-response message even if \<open>JSON.parse\<close> would return an array of questions
  that pass the validator. The serialised array of one valid question whose text is
  "What is [MOCK] data backup?" is such a text: the JSON parser of the model reads it
  back, the validator accepts it, and the question parser rejects it.
\<close>

theorem mock_marker_rejects_valid_array:
  "(startsWith (trim r) ''['' \<and> includesStr (trim r) ''MOCK]''
      \<and> jsonParse (trim r) = Inr (JArr qs) \<and> valid (validateQuestions (JArr qs) cfg)
     \<longrightarrow> parseQuestionResponse jsonParse r
           = \<lparr> success = False, questions = [], error = Some MOCK_RESPONSE_ERROR \<rparr>
         \<and> parseScoringResponse jsonParse toNumber r
           = \<lparr> scoringSuccess = False, breakdown = None,
               scoringError = Some MOCK_RESPONSE_ERROR \<rparr>)
   \<and> JSON_parse (stringifyQuestions
         [\<lparr> qtext = ''What is [MOCK] data backup?'', intent = ''find_service'',
            language = ''en'' \<rparr>])
       = Some (JArr [questionValue
           \<lparr> qtext = ''What is [MOCK] data backup?'', intent = ''find_service'',
             language = ''en'' \<rparr>])
   \<and> valid (validateQuestions (JArr [questionValue
           \<lparr> qtext = ''What is [MOCK] data backup?'', intent = ''find_service'',
             language = ''en'' \<rparr>]) emptyConfig)
   \<and> parseQuestionResponse (jsonParser msg) (stringifyQuestions
         [\<lparr> qtext = ''What is [MOCK] data backup?'', intent = ''find_service'',
            language = ''en'' \<rparr>])
       = \<lparr> success = False, questions = [], error = Some MOCK_RESPONSE_ERROR \<rparr>"
proof (intro conjI impI)
  assume a: "startsWith (trim r) ''['' \<and> includesStr (trim r) ''MOCK]''
      \<and> jsonParse (trim r) = Inr (JArr qs) \<and> valid (validateQuestions (JArr qs) cfg)"
  then have m: "isMockResponse (trim r)" by (simp add: isMockResponse_def)
  show "parseQuestionResponse jsonParse r
           = \<lparr> success = False, questions = [], error = Some MOCK_RESPONSE_ERROR \<rparr>"
    using parseQuestionResponse_mock [OF m, of jsonParse] by (simp add: parseFailure_def)
  show "parseScoringResponse jsonParse toNumber r
           = \<lparr> scoringSuccess = False, breakdown = None,
               scoringError = Some MOCK_RESPONSE_ERROR \<rparr>"
    using parseScoringResponse_mock [OF m, of jsonParse toNumber]
    by (simp add: scoringFailure_def)
next
  show "JSON_parse (stringifyQuestions
         [\<lparr> qtext = ''What is [MOCK] data backup?'', intent = ''find_service'',
            language = ''en'' \<rparr>])
       = Some (JArr [questionValue
           \<lparr> qtext = ''What is [MOCK] data backup?'', intent = ''find_service'',
             language = ''en'' \<rparr>])"
    by (simp add: JSON_parse_stringifyQuestions)
next
  show "valid (validateQuestions (JArr [questionValue
           \<lparr> qtext = ''What is [MOCK] data backup?'', intent = ''find_service'',
             language = ''en'' \<rparr>]) emptyConfig)"
    by code_simp
next
  have "isMockResponse (trim (stringifyQuestions
         [\<lparr> qtext = ''What is [MOCK] data backup?'', intent = ''find_service'',
            language = ''en'' \<rparr>]))"
    by code_simp
  then show "parseQuestionResponse (jsonParser msg) (stringifyQuestions
         [\<lparr> qtext = ''What is [MOCK] data backup?'', intent = ''find_service'',
            language = ''en'' \<rparr>])
       = \<lparr> success = False, questions = [], error = Some MOCK_RESPONSE_ERROR \<rparr>"
    using parseQuestionResponse_mock by (simp add: parseFailure_def)
qed

theorem mock_marker_rejects_valid_array_witness:
  "startsWith (trim (stringifyQuestions
       [\<lparr> qtext = ''Which [MOCK] vendors do backups?'', intent = ''pricing'',
          language = ''en'' \<rparr>])) ''[''
   \<and> includesStr (trim (stringifyQuestions
       [\<lparr> qtext = ''Which [MOCK] vendors do backups?'', intent = ''pricing'',
          language = ''en'' \<rparr>])) ''MOCK]''
   \<and> jsonParser ''Unexpected token'' (trim (stringifyQuestions
       [\<lparr> qtext = ''Which [MOCK] vendors do backups?'', intent = ''pricing'',
          language = ''en'' \<rparr>]))
      = Inr (JArr [questionValue \<lparr> qtext = ''Which [MOCK] vendors do backups?'',
          intent = ''pricing'', language = ''en'' \<rparr>])
   \<and> valid (validateQuestions (JArr [questionValue
       \<lparr> qtext = ''Which [MOCK] vendors do backups?'', intent = ''pricing'',
         language = ''en'' \<rparr>]) emptyConfig)
   \<and> parseQuestionResponse (jsonParser ''Unexpected token'') (stringifyQuestions
       [\<lparr> qtext = ''Which [MOCK] vendors do backups?'', intent = ''pricing'',
          language = ''en'' \<rparr>])
      = \<lparr> success = False, questions = [], error = Some MOCK_RESPONSE_ERROR \<rparr>
   \<and> parseScoringResponse (jsonParser ''Unexpected token'') (\<lambda>v. NaN) (stringifyQuestions
       [\<lparr> qtext = ''Which [MOCK] vendors do backups?'', intent = ''pricing'',
          language = ''en'' \<rparr>])
      = \<lparr> scoringSuccess = False, breakdown = None,
          scoringError = Some MOCK_RESPONSE_ERROR \<rparr>"
proof -
  let ?q = "\<lparr> qtext = ''Which [MOCK] vendors do backups?'', intent = ''pricing'',
          language = ''en'' \<rparr>"
  have t: "trim (stringifyQuestions [?q]) = stringifyQuestions [?q]"
    by code_simp
  have s: "startsWith (trim (stringifyQuestions [?q])) ''[''"
    by code_simp
  have i: "includesStr (trim (stringifyQuestions [?q])) ''MOCK]''"
    by code_simp
  have p: "jsonParser ''Unexpected token'' (trim (stringifyQuestions [?q]))
      = Inr (JArr [questionValue ?q])"
    by (simp add: t jsonParser_def JSON_parse_stringifyQuestions)
  have v: "valid (validateQuestions (JArr [questionValue ?q]) emptyConfig)"
    by code_simp
  show ?thesis
    using s i p v mock_marker_rejects_valid_array
      [of "stringifyQuestions [?q]" "jsonParser ''Unexpected token''" "[questionValue ?q]"
        emptyConfig "\<lambda>v. NaN"]
    by blast
qed

end
